theory Spec2Isabelle
  imports Main "HOL-Library.Char_ord" "HOL-Library.List_Lexorder"
begin

section \<open>Go strings\<close>

text \<open>
  A Go string is a byte sequence; \<open>string\<close> (a \<open>char list\<close>) is the same thing.
  The helpers below are the functions of the Go package \<open>strings\<close> that
  \<open>routes.go\<close> calls.
\<close>

definition HasPrefix :: "string \<Rightarrow> string \<Rightarrow> bool" where
  "HasPrefix s pre = (take (length pre) s = pre)"

definition HasSuffix :: "string \<Rightarrow> string \<Rightarrow> bool" where
  "HasSuffix s suf = (length suf \<le> length s \<and> drop (length s - length suf) s = suf)"

definition TrimSuffix :: "string \<Rightarrow> string \<Rightarrow> string" where
  "TrimSuffix s suf = (if HasSuffix s suf then take (length s - length suf) s else s)"

fun Join :: "string list \<Rightarrow> string \<Rightarrow> string" where
  "Join [] sep = []"
| "Join [x] sep = x"
| "Join (x # y # ys) sep = x @ sep @ Join (y # ys) sep"

section \<open>The strict router (\<open>strictMux\<close>)\<close>

text \<open>
  \<open>strictMux\<close> wraps a value of the interface \<open>mux\<close> and keeps the map \<open>seen\<close>.
  The wrapped mux is kept as the list of the \<open>(pattern, handler)\<close> pairs handed to
  its \<open>Handle\<close>, in call order. \<open>seen\<close> is a Go \<open>map[string]struct{}\<close>, that is a
  set of strings; it is kept as the list of its keys in insertion order. Go ranges
  over a map in an unspecified order, so which colliding entry the error message
  names is not fixed by the source; whether an error is returned is. What the
  wrapped mux does with a pattern it is handed (an \<open>http.ServeMux\<close> panics on an
  empty or repeated one) is not part of \<open>strictMux\<close> and is not modelled.
\<close>

record 'h strictMux =
  mux :: "(string \<times> 'h) list"
  seen :: "string list"

definition newStrictMux :: "(string \<times> 'h) list \<Rightarrow> 'h strictMux" where
  "newStrictMux m = \<lparr>mux = m, seen = []\<rparr>"

datatype RegisterError =
  AlreadyRegistered string
  | SharesRegistered string string

text \<open>
  The loop of \<open>Handle\<close>:
  \<^verbatim>\<open>for next := strings.TrimSuffix(sanitized, "/"); next != sanitized; sanitized = next {}\<close>
  \<open>next\<close> is computed once, by the init statement; the post statement copies it
  into \<open>sanitized\<close>, after which the condition is false. \<open>sanitize\<close> is the value of
  \<open>sanitized\<close> when the loop is left.
\<close>

function sanitize_loop :: "string \<Rightarrow> string \<Rightarrow> string" where
  "sanitize_loop next sanitized =
     (if next \<noteq> sanitized then sanitize_loop next next else sanitized)"
  by pat_completeness auto
termination
  by (relation "measure (\<lambda>(n, s). if n \<noteq> s then 1 else 0)") auto

declare sanitize_loop.simps [simp del]

definition sanitize :: "string \<Rightarrow> string" where
  "sanitize pattern = sanitize_loop (TrimSuffix pattern ''/'') pattern"

definition Handle :: "'h strictMux \<Rightarrow> string \<Rightarrow> 'h \<Rightarrow> RegisterError + 'h strictMux" where
  "Handle s pattern handler =
     (let sanitized = sanitize pattern in
      if sanitized \<in> set (seen s) then Inl (AlreadyRegistered sanitized)
      else
        (case find (\<lambda>p. HasPrefix (sanitized @ ''/'') (p @ ''/'')) (seen s) of
           Some p \<Rightarrow> Inl (SharesRegistered p sanitized)
         | None \<Rightarrow>
             Inr \<lparr>mux = mux s @ [(sanitized, handler), (sanitized @ ''/'', handler)],
                  seen = seen s @ [sanitized]\<rparr>))"

text \<open>A sequence of registrations, stopping at the first error (as \<open>NewRoutes\<close> does
  for the passthrough paths).\<close>

fun HandleAll :: "'h strictMux \<Rightarrow> (string \<times> 'h) list \<Rightarrow> RegisterError + 'h strictMux" where
  "HandleAll s [] = Inr s"
| "HandleAll s ((p, h) # rest) =
     (case Handle s p h of Inl e \<Rightarrow> Inl e | Inr s' \<Rightarrow> HandleAll s' rest)"

section \<open>HTTP responses and errors\<close>

abbreviation StatusBadRequest :: nat where "StatusBadRequest \<equiv> 400"
abbreviation StatusInternalServerError :: nat where "StatusInternalServerError \<equiv> 500"
abbreviation StatusBadGateway :: nat where "StatusBadGateway \<equiv> 502"
abbreviation StatusOK :: nat where "StatusOK \<equiv> 200"

text \<open>
  The state of an \<open>http.ResponseWriter\<close>: whether the status line has been written,
  the status code it carried, and the chunks written to the body. As in
  \<open>net/http\<close>, the first \<open>WriteHeader\<close> fixes the status and a later call is
  superfluous and ignored; the first \<open>Write\<close> without a header writes 200.
\<close>

record ResponseWriter =
  wroteHeader :: bool
  status :: nat
  written :: "string list"

definition newResponseWriter :: ResponseWriter where
  "newResponseWriter = \<lparr>wroteHeader = False, status = 0, written = []\<rparr>"

definition WriteHeader :: "nat \<Rightarrow> ResponseWriter \<Rightarrow> ResponseWriter" where
  "WriteHeader code w = (if wroteHeader w then w else w\<lparr>wroteHeader := True, status := code\<rparr>)"

definition Write :: "string \<Rightarrow> ResponseWriter \<Rightarrow> ResponseWriter" where
  "Write b w = (let w' = WriteHeader StatusOK w in w'\<lparr>written := written w' @ [b]\<rparr>)"

text \<open>The status the client receives once the handler has returned: a handler that
  wrote nothing answers 200.\<close>

definition sentStatus :: "ResponseWriter \<Rightarrow> nat" where
  "sentStatus w = (if wroteHeader w then status w else StatusOK)"

text \<open>
  Modelled from the spec: \<open>prometheusAPIError\<close> is called by \<open>routes.go\<close> and
  defined in a file that is not under \<open>src/\<close>. The spec's error mapping has it answer
  with the given status code and the message; the JSON envelope and the content-type
  headers are left out.
\<close>

definition prometheusAPIError :: "ResponseWriter \<Rightarrow> string \<Rightarrow> nat \<Rightarrow> ResponseWriter" where
  "prometheusAPIError w errorMessage code = Write errorMessage (WriteHeader code w)"

text \<open>
  Modelled from the spec: \<open>errModifyResponseFailed\<close>, the distinguished "response
  modification failed" error, is declared in a file that is not under \<open>src/\<close>. An
  error is that sentinel, some other error, or an error that wraps one: the chain
  \<open>errors.Is\<close> walks.
\<close>

datatype GoError =
  errModifyResponseFailed
  | ErrorString string
  | Wrapped string GoError

fun errors_Is :: "GoError \<Rightarrow> GoError \<Rightarrow> bool" where
  "errors_Is (Wrapped msg inner) target =
     (Wrapped msg inner = target \<or> errors_Is inner target)"
| "errors_Is err target = (err = target)"

text \<open>\<open>routes.errorHandler\<close>; the log line and the unused request are left out.\<close>

definition errorHandler :: "ResponseWriter \<Rightarrow> GoError \<Rightarrow> ResponseWriter" where
  "errorHandler rw err =
     (let rw = (if errors_Is err errModifyResponseFailed
                then WriteHeader StatusBadRequest rw else rw)
      in WriteHeader StatusBadGateway rw)"

section \<open>Requests\<close>

text \<open>
  \<open>url.Values\<close> is \<open>map[string][]string\<close>. \<open>Get\<close> returns the first value of a
  key, or the empty string.
\<close>

type_synonym Values = "string \<rightharpoonup> string list"

definition Values_Get :: "Values \<Rightarrow> string \<Rightarrow> string" where
  "Values_Get v key = (case v key of None \<Rightarrow> [] | Some [] \<Rightarrow> [] | Some (x # _) \<Rightarrow> x)"

definition Values_Set :: "Values \<Rightarrow> string \<Rightarrow> string \<Rightarrow> Values" where
  "Values_Set v key val = v(key \<mapsto> [val])"

definition queryParam :: string where "queryParam = ''query''"
definition matchersParam :: string where "matchersParam = ''match[]''"
definition MethodPost :: string where "MethodPost = ''POST''"

text \<open>
  The parts of \<open>http.Request\<close> the handlers read or write. \<open>Body\<close> is \<open>None\<close> for
  a nil body, \<open>Some (Inl e)\<close> for a body whose reading fails with \<open>e\<close>, and
  \<open>Some (Inr b)\<close> for a body that reads as the bytes \<open>b\<close>. \<open>ctxLabels\<close> is the value
  stored in the request's context under \<open>keyLabel\<close>.
\<close>

record Request =
  Method :: string
  RawQuery :: string
  Body :: "(string + string) option"
  ContentLength :: int
  ctxLabels :: "string list option"

section \<open>Label matchers\<close>

datatype MatchType = MatchEqual | MatchNotEqual | MatchRegexp | MatchNotRegexp

record Matcher =
  Name :: string
  Type :: MatchType
  Value :: string

fun MatchType_String :: "MatchType \<Rightarrow> string" where
  "MatchType_String MatchEqual = ''=''"
| "MatchType_String MatchNotEqual = ''!=''"
| "MatchType_String MatchRegexp = ''=~''"
| "MatchType_String MatchNotRegexp = ''!~''"

text \<open>
  \<open>strconv.Quote\<close> on ASCII: the double quote and the backslash are escaped, the
  control characters are written with their Go escapes, everything else is copied.
  Bytes from 0x80 on are copied too, which is what Go does for printable UTF-8.
\<close>

definition hex_digit :: "nat \<Rightarrow> char" where
  "hex_digit n = ''0123456789abcdef'' ! (n mod 16)"

definition quote_byte :: "char \<Rightarrow> string" where
  "quote_byte c =
     (if c = CHR 0x22 then [CHR 0x5C, CHR 0x22]
      else if c = CHR 0x5C then [CHR 0x5C, CHR 0x5C]
      else if c = CHR 0x07 then [CHR 0x5C, CHR ''a'']
      else if c = CHR 0x08 then [CHR 0x5C, CHR ''b'']
      else if c = CHR 0x0C then [CHR 0x5C, CHR ''f'']
      else if c = CHR 0x0A then [CHR 0x5C, CHR ''n'']
      else if c = CHR 0x0D then [CHR 0x5C, CHR ''r'']
      else if c = CHR 0x09 then [CHR 0x5C, CHR ''t'']
      else if c = CHR 0x0B then [CHR 0x5C, CHR ''v'']
      else if (of_char c :: nat) < 32 \<or> (of_char c :: nat) = 127
        then [CHR 0x5C, CHR ''x'', hex_digit (of_char c div 16), hex_digit (of_char c)]
      else [c])"

definition strconv_Quote :: "string \<Rightarrow> string" where
  "strconv_Quote s = [CHR 0x22] @ concat (map quote_byte s) @ [CHR 0x22]"

text \<open>\<open>labels.Matcher.String\<close>: the name, the operator, the quoted value.\<close>

definition Matcher_String :: "Matcher \<Rightarrow> string" where
  "Matcher_String m = Name m @ MatchType_String (Type m) @ strconv_Quote (Value m)"

text \<open>\<open>regexp.QuoteMeta\<close> puts a backslash before each byte of
  \<^verbatim>\<open>\.+*?()|[]{}^$\<close>.\<close>

definition regexp_special :: "char \<Rightarrow> bool" where
  "regexp_special c = (c \<in> set (CHR 0x5C # ''.+*?()|[]{}^$''))"

definition QuoteMeta :: "string \<Rightarrow> string" where
  "QuoteMeta s = concat (map (\<lambda>c. if regexp_special c then [CHR 0x5C, c] else [c]) s)"

definition labelValuesToRegexpString :: "string list \<Rightarrow> string" where
  "labelValuesToRegexpString labelValues = Join (map QuoteMeta labelValues) ''|''"

definition matchersToString :: "Matcher list \<Rightarrow> string" where
  "matchersToString ms = ''{'' @ Join (map Matcher_String ms) '','' @ ''}''"


section \<open>The query enforcer\<close>

text \<open>
  The query-language parser and its syntax tree are an external library. A parsed
  expression is kept as the sequence of its pieces in source order: the vector
  selectors, each with its metric name and label matchers, and the text between
  them, which enforcement never touches. A selector prints as its name followed by
  its matchers between braces, when it has any.
\<close>

datatype Node = Text string | VectorSelector string "Matcher list"

type_synonym Expr = "Node list"

fun Node_String :: "Node \<Rightarrow> string" where
  "Node_String (Text t) = t"
| "Node_String (VectorSelector name ms) =
     (if ms = [] then name else name @ matchersToString ms)"

definition Expr_String :: "Expr \<Rightarrow> string" where
  "Expr_String expr = concat (map Node_String expr)"

text \<open>
  Modelled from the spec: the three errors \<open>routes.query\<close> switches on are declared
  in a file that is not under \<open>src/\<close>; by section 7 of the spec they are the illegal
  matcher conflict, the query parse failure and the internal enforcement failure.
  Each carries its message.
\<close>

datatype EnforceError =
  ErrIllegalLabelMatcher string
  | ErrQueryParse string
  | ErrEnforceLabel string

text \<open>
  Modelled from the spec: \<open>PromQLEnforcer\<close> and \<open>NewPromQLEnforcer\<close> are defined in a
  file that is not under \<open>src/\<close>. An enforcer holds what \<open>routes.query\<close> gives the
  constructor: the error-on-replace flag and the matcher to inject.
\<close>

record PromQLEnforcer =
  enf_errorOnReplace :: bool
  enf_matcher :: Matcher

definition NewPromQLEnforcer :: "bool \<Rightarrow> Matcher \<Rightarrow> PromQLEnforcer" where
  "NewPromQLEnforcer eor m = \<lparr>enf_errorOnReplace = eor, enf_matcher = m\<rparr>"

text \<open>
  Modelled from the spec: the enforcement of a parsed expression is defined in a
  file that is not under \<open>src/\<close>. By section 4.3 of the spec, it walks every selector
  and appends the tenant matcher; a matcher already present on the tenant label with
  a different value is replaced silently, or is the "illegal matcher" error when
  error-on-replace is set.
\<close>

definition EnforceMatchers :: "PromQLEnforcer \<Rightarrow> Matcher list \<Rightarrow> EnforceError + Matcher list" where
  "EnforceMatchers e targets =
     (let m = enf_matcher e in
      if enf_errorOnReplace e \<and> list_ex (\<lambda>t. Name t = Name m \<and> Value t \<noteq> Value m) targets
      then Inl (ErrIllegalLabelMatcher ''label matcher value conflicts with injected value'')
      else Inr (filter (\<lambda>t. Name t \<noteq> Name m) targets @ [m]))"

fun EnforceNode :: "PromQLEnforcer \<Rightarrow> Expr \<Rightarrow> EnforceError + Expr" where
  "EnforceNode e [] = Inr []"
| "EnforceNode e (Text t # rest) =
     (case EnforceNode e rest of Inl err \<Rightarrow> Inl err | Inr rest' \<Rightarrow> Inr (Text t # rest'))"
| "EnforceNode e (VectorSelector name ms # rest) =
     (case EnforceMatchers e ms of
        Inl err \<Rightarrow> Inl err
      | Inr ms' \<Rightarrow>
          (case EnforceNode e rest of
             Inl err \<Rightarrow> Inl err
           | Inr rest' \<Rightarrow> Inr (VectorSelector name ms' # rest')))"

section \<open>External collaborators\<close>

text \<open>
  The library functions the handlers call and whose results the model does not
  compute: they are parameters, and every theorem holds for all of them.
  \<^item> \<open>ParseQuery\<close> is \<open>url.ParseQuery\<close>: the values parsed and the first error;
  \<^item> \<open>Encode\<close> is \<open>url.Values.Encode\<close>;
  \<^item> \<open>ParseForm\<close> is \<open>http.Request.ParseForm\<close> on a POST request, as a function
    of the body: its error, and \<open>req.PostForm\<close> after the call (where the handlers
    call it, \<open>RawQuery\<close> has just been written by \<open>Encode\<close>, so the URL part of
    \<open>ParseForm\<close> has nothing to report);
  \<^item> \<open>regexp_Compile\<close> is \<open>regexp.Compile\<close>: an error, or the compiled expression,
    kept as its \<open>MatchString\<close>;
  \<^item> \<open>NewFastRegexMatcher\<close> is the compilation \<open>labels.NewMatcher\<close> performs for a
    regular-expression matcher: its error, if any;
  \<^item> \<open>ParseExpr\<close> and \<open>ParseMetricSelector\<close> are the functions of the query-language
    parser.
\<close>

record Ext =
  ParseQuery :: "string \<Rightarrow> Values \<times> string option"
  Encode :: "Values \<Rightarrow> string"
  ParseForm :: "(string + string) option \<Rightarrow> string option \<times> Values"
  regexp_Compile :: "string \<Rightarrow> string + (string \<Rightarrow> bool)"
  NewFastRegexMatcher :: "string \<Rightarrow> string option"
  ParseExpr :: "string \<Rightarrow> string + Expr"
  ParseMetricSelector :: "string \<Rightarrow> string + Matcher list"

text \<open>\<open>req.URL.Query()\<close> parses \<open>RawQuery\<close> and drops the error.\<close>

definition URL_Query :: "Ext \<Rightarrow> Request \<Rightarrow> Values" where
  "URL_Query ext req = fst (ParseQuery ext (RawQuery req))"

text \<open>\<open>labels.NewMatcher\<close>: a regular-expression matcher is compiled, every matcher
  carries its name, type and value.\<close>

definition NewMatcher :: "Ext \<Rightarrow> MatchType \<Rightarrow> string \<Rightarrow> string \<Rightarrow> string + Matcher" where
  "NewMatcher ext t n v =
     (if t = MatchRegexp \<or> t = MatchNotRegexp then
        (case NewFastRegexMatcher ext v of
           Some err \<Rightarrow> Inl err
         | None \<Rightarrow> Inr \<lparr>Name = n, Type = t, Value = v\<rparr>)
      else Inr \<lparr>Name = n, Type = t, Value = v\<rparr>)"

text \<open>
  Modelled from the spec: \<open>PromQLEnforcer.Enforce\<close> is defined in a file that is not
  under \<open>src/\<close>. By sections 4.3 and 7 of the spec, it parses the expression with the
  external parser, a failure being the query-parse error, enforces the matcher on
  every selector and prints the expression.
\<close>

definition Enforce :: "Ext \<Rightarrow> PromQLEnforcer \<Rightarrow> string \<Rightarrow> EnforceError + string" where
  "Enforce ext e q =
     (case ParseExpr ext q of
        Inl err \<Rightarrow> Inl (ErrQueryParse err)
      | Inr expr \<Rightarrow>
          (case EnforceNode e expr of
             Inl err \<Rightarrow> Inl err
           | Inr expr' \<Rightarrow> Inr (Expr_String expr')))"

section \<open>Bypass\<close>

text \<open>\<open>extractQueryParam\<close> returns the query or an error, and the request, whose body
  it has replaced by a fresh reader over the bytes it read.\<close>

definition extractQueryParam :: "Ext \<Rightarrow> Request \<Rightarrow> (string + string) \<times> Request" where
  "extractQueryParam ext req =
     (let q = Values_Get (URL_Query ext req) ''query'' in
      if q \<noteq> [] then (Inr q, req)
      else
        (case (if Method req = MethodPost then Body req else None) of
           None \<Rightarrow> (Inl ''no query parameter found in URL or form data'', req)
         | Some (Inl err) \<Rightarrow> (Inl (''failed to read request body: '' @ err), req)
         | Some (Inr bodyBytes) \<Rightarrow>
             (let req = req\<lparr>Body := Some (Inr bodyBytes)\<rparr> in
              case ParseQuery ext bodyBytes of
                (form, Some err) \<Rightarrow> (Inl (''failed to parse form data: '' @ err), req)
              | (form, None) \<Rightarrow>
                  (let q = Values_Get form ''query'' in
                   if q \<noteq> [] then (Inr q, req)
                   else (Inl ''no query parameter found in URL or form data'', req)))))"

text \<open>\<open>bypassHandler\<close>: the two wrapped handlers are functions of the response writer
  and the request.\<close>

definition bypassHandler ::
  "Ext \<Rightarrow> string list \<Rightarrow> (ResponseWriter \<Rightarrow> Request \<Rightarrow> 'o) \<Rightarrow> (ResponseWriter \<Rightarrow> Request \<Rightarrow> 'o)
     \<Rightarrow> ResponseWriter \<Rightarrow> Request \<Rightarrow> 'o" where
  "bypassHandler ext bypassQueries upstream enforcerChain w r =
     (if length bypassQueries > 0 then
        (case extractQueryParam ext r of
           (Inr qry, r') \<Rightarrow>
             if qry \<in> set bypassQueries then upstream w r' else enforcerChain w r'
         | (Inl err, r') \<Rightarrow> enforcerChain w r')
      else enforcerChain w r)"

section \<open>The enforcing handlers\<close>

text \<open>The configuration fields of \<open>routes\<close> that the handlers read.\<close>

record routes =
  label :: string
  errorOnReplace :: bool
  regexMatch :: bool
  rulesWithActiveAlerts :: bool
  bypassQueries :: "string list"

text \<open>
  What a handler did when it returned: it panicked, it returned without calling the
  upstream handler (leaving the response writer in the given state), or it called
  \<open>r.handler.ServeHTTP\<close> with the given response writer and request.
\<close>

datatype Outcome =
  Panicked
  | Returned ResponseWriter
  | Forwarded ResponseWriter Request

text \<open>
  \<open>MustLabelValues\<close> panics (\<open>None\<close>) when the context holds no labels or an empty
  list. \<open>sort.Strings\<close> sorts the stored slice in place, so the request's context
  holds the sorted list afterwards: the request is returned with it.
\<close>

definition MustLabelValues :: "Request \<Rightarrow> (string list \<times> Request) option" where
  "MustLabelValues req =
     (case ctxLabels req of
        None \<Rightarrow> None
      | Some labels \<Rightarrow>
          if length labels = 0 then None
          else Some (sort labels, req\<lparr>ctxLabels := Some (sort labels)\<rparr>))"

definition MustLabelValue :: "Request \<Rightarrow> (string \<times> Request) option" where
  "MustLabelValue req =
     (case MustLabelValues req of
        None \<Rightarrow> None
      | Some ([], req') \<Rightarrow> None
      | Some (v # _, req') \<Rightarrow> Some (v, req'))"

text \<open>
  The first part of \<open>routes.query\<close> (up to the construction of the enforcer): the
  matcher to inject, or the message and status of the rejection; \<open>None\<close> is a panic.
\<close>

definition query_matcher :: "Ext \<Rightarrow> routes \<Rightarrow> Request \<Rightarrow> ((string \<times> nat) + Matcher) option" where
  "query_matcher ext r req =
     (case MustLabelValues req of
        None \<Rightarrow> None
      | Some (lvs, req) \<Rightarrow>
          if length lvs > 1 then
            (if regexMatch r
             then Some (Inl (''Only one label value allowed with regex match'', StatusBadRequest))
             else Some (Inr \<lparr>Name = label r, Type = MatchRegexp,
                             Value = labelValuesToRegexpString lvs\<rparr>))
          else
            (case MustLabelValue req of
               None \<Rightarrow> None
             | Some (matcherValue, req) \<Rightarrow>
                 if regexMatch r then
                   (case regexp_Compile ext matcherValue of
                      Inl err \<Rightarrow> Some (Inl (err, StatusBadRequest))
                    | Inr compiledRegex \<Rightarrow>
                        if compiledRegex []
                        then Some (Inl (''Regex should not match empty string'', StatusBadRequest))
                        else Some (Inr \<lparr>Name = label r, Type = MatchRegexp,
                                        Value = matcherValue\<rparr>))
                 else Some (Inr \<lparr>Name = label r, Type = MatchEqual, Value = matcherValue\<rparr>)))"

definition enforceQueryValues ::
  "Ext \<Rightarrow> PromQLEnforcer \<Rightarrow> Values \<Rightarrow> string \<times> bool \<times> EnforceError option" where
  "enforceQueryValues ext e v =
     (if Values_Get v queryParam = [] then (Encode ext v, False, None)
      else
        (case Enforce ext e (Values_Get v queryParam) of
           Inl err \<Rightarrow> ([], True, Some err)
         | Inr q \<Rightarrow> (Encode ext (Values_Set v queryParam q), True, None)))"

text \<open>The \<open>switch\<close> on the enforcement error, which \<open>routes.query\<close> has twice.\<close>

fun query_error_switch :: "ResponseWriter \<Rightarrow> EnforceError \<Rightarrow> ResponseWriter" where
  "query_error_switch w (ErrIllegalLabelMatcher msg) = prometheusAPIError w msg StatusBadRequest"
| "query_error_switch w (ErrQueryParse msg) = prometheusAPIError w msg StatusBadRequest"
| "query_error_switch w (ErrEnforceLabel msg) = prometheusAPIError w msg StatusInternalServerError"

definition query :: "Ext \<Rightarrow> routes \<Rightarrow> ResponseWriter \<Rightarrow> Request \<Rightarrow> Outcome" where
  "query ext r w req =
     (case query_matcher ext r req of
        None \<Rightarrow> Panicked
      | Some (Inl (msg, code)) \<Rightarrow> Returned (prometheusAPIError w msg code)
      | Some (Inr matcher) \<Rightarrow>
          (let req = (case MustLabelValues req of None \<Rightarrow> req | Some (lvs, req') \<Rightarrow> req');
               e = NewPromQLEnforcer (errorOnReplace r) matcher
           in case enforceQueryValues ext e (URL_Query ext req) of
                (q, found1, Some err) \<Rightarrow> Returned (query_error_switch w err)
              | (q, found1, None) \<Rightarrow>
                  (let req = req\<lparr>RawQuery := q\<rparr> in
                   if Method req = MethodPost then
                     (case ParseForm ext (Body req) of
                        (perr, postForm) \<Rightarrow>
                          (let w = (case perr of
                                      Some msg \<Rightarrow> prometheusAPIError w msg StatusBadRequest
                                    | None \<Rightarrow> w)
                           in case enforceQueryValues ext e postForm of
                                (q, found2, Some err) \<Rightarrow> Returned (query_error_switch w err)
                              | (q, found2, None) \<Rightarrow>
                                  (let req = req\<lparr>Body := Some (Inr q),
                                                 ContentLength := int (length q)\<rparr>
                                   in if \<not> found1 \<and> \<not> found2 then Returned w
                                      else Forwarded w req)))
                   else if \<not> found1 then Returned w
                   else Forwarded w req)))"

definition newLabelMatcher :: "Ext \<Rightarrow> routes \<Rightarrow> string list \<Rightarrow> string + Matcher" where
  "newLabelMatcher ext r vals =
     (if regexMatch r then
        (case vals of
           [re] \<Rightarrow>
             (case regexp_Compile ext re of
                Inl err \<Rightarrow> Inl (''invalid regex: '' @ err)
              | Inr compiledRegex \<Rightarrow>
                  if compiledRegex [] then Inl ''regex should not match empty string''
                  else NewMatcher ext MatchRegexp (label r) re)
         | _ \<Rightarrow> Inl ''only one label value allowed with regex match'')
      else
        (case vals of
           [v] \<Rightarrow> Inr \<lparr>Name = label r, Type = MatchEqual, Value = v\<rparr>
         | _ \<Rightarrow> NewMatcher ext MatchRegexp (label r) (labelValuesToRegexpString vals)))"

text \<open>
  The loop of \<open>injectMatcher\<close> rewrites the slice \<open>matchers\<close> in place and returns at
  the first selector that does not parse: the entries before it are rewritten, it
  and the entries after it are as they were.
\<close>

fun injectMatcher_loop :: "Ext \<Rightarrow> Matcher \<Rightarrow> string list \<Rightarrow> string option \<times> string list" where
  "injectMatcher_loop ext matcher [] = (None, [])"
| "injectMatcher_loop ext matcher (m # rest) =
     (case ParseMetricSelector ext m of
        Inl err \<Rightarrow> (Some err, m # rest)
      | Inr ms \<Rightarrow>
          (case injectMatcher_loop ext matcher rest of
             (err, rest') \<Rightarrow> (err, matchersToString (ms @ [matcher]) # rest')))"

text \<open>\<open>injectMatcher\<close> returns its error and the values \<open>q\<close>, which it updates in place
  (the slice it rewrites is the one stored in \<open>q\<close>).\<close>

definition injectMatcher :: "Ext \<Rightarrow> Values \<Rightarrow> Matcher \<Rightarrow> string option \<times> Values" where
  "injectMatcher ext q matcher =
     (let matchers = (case q matchersParam of None \<Rightarrow> [] | Some ms \<Rightarrow> ms) in
      if length matchers = 0
      then (None, Values_Set q matchersParam (matchersToString [matcher]))
      else
        (case injectMatcher_loop ext matcher matchers of
           (err, matchers') \<Rightarrow> (err, q(matchersParam \<mapsto> matchers'))))"

definition matcher :: "Ext \<Rightarrow> routes \<Rightarrow> ResponseWriter \<Rightarrow> Request \<Rightarrow> Outcome" where
  "matcher ext r w req =
     (case MustLabelValues req of
        None \<Rightarrow> Panicked
      | Some (lvs, req) \<Rightarrow>
          (case newLabelMatcher ext r lvs of
             Inl err \<Rightarrow> Returned (prometheusAPIError w err StatusBadRequest)
           | Inr m \<Rightarrow>
               (case injectMatcher ext (URL_Query ext req) m of
                  (Some err, q) \<Rightarrow> Returned (prometheusAPIError w err StatusBadRequest)
                | (None, q) \<Rightarrow>
                    (let req = req\<lparr>RawQuery := Encode ext q\<rparr> in
                     if Method req = MethodPost then
                       (case ParseForm ext (Body req) of
                          (Some perr, postForm) \<Rightarrow> Returned w
                        | (None, postForm) \<Rightarrow>
                            (case injectMatcher ext postForm m of
                               (Some err, q) \<Rightarrow> Returned w
                             | (None, q) \<Rightarrow>
                                 (let newBody = Encode ext q;
                                      req = req\<lparr>Body := Some (Inr newBody),
                                                ContentLength := int (length newBody)\<rparr>
                                  in Forwarded w req)))
                     else Forwarded w req))))"

text \<open>A handler rejected the request with a status: it returned without calling the
  upstream handler, and the response carries that status.\<close>

definition rejected :: "nat \<Rightarrow> Outcome \<Rightarrow> bool" where
  "rejected code out = (case out of Returned w \<Rightarrow> sentStatus w = code | _ \<Rightarrow> False)"

definition forwarded :: "Outcome \<Rightarrow> bool" where
  "forwarded out = (case out of Forwarded w req \<Rightarrow> True | _ \<Rightarrow> False)"

text \<open>A location holds the query parameter when \<open>Get\<close> returns a non-empty value
  for it, which is what \<open>enforceQueryValues\<close> tests; the body counts for a POST
  request only.\<close>

definition query_in_url :: "Ext \<Rightarrow> Request \<Rightarrow> bool" where
  "query_in_url ext req = (Values_Get (URL_Query ext req) queryParam \<noteq> [])"

definition query_in_body :: "Ext \<Rightarrow> Request \<Rightarrow> bool" where
  "query_in_body ext req =
     (Method req = MethodPost \<and>
      Values_Get (snd (ParseForm ext (Body req))) queryParam \<noteq> [])"

section \<open>Example collaborators and inputs\<close>

text \<open>
  Small collaborators for the examples: they understand the few query strings,
  expressions and selectors the examples use and report an error on the rest. The
  theorems below hold for every collaborator; the examples instantiate them here.
\<close>

definition example_ParseQuery :: "string \<Rightarrow> Values \<times> string option" where
  "example_ParseQuery s =
     (if s = [] then (Map.empty, None)
      else if HasPrefix s ''query='' then ([''query'' \<mapsto> [drop 6 s]], None)
      else if HasPrefix s ''match[]='' then ([''match[]'' \<mapsto> [drop 8 s]], None)
      else (Map.empty, Some ''invalid query string''))"

definition example_Encode :: "Values \<Rightarrow> string" where
  "example_Encode v =
     (case v ''query'' of
        Some (x # _) \<Rightarrow> ''query='' @ x
      | _ \<Rightarrow> (case v ''match[]'' of Some (x # _) \<Rightarrow> ''match[]='' @ x | _ \<Rightarrow> []))"

definition example_ParseForm :: "(string + string) option \<Rightarrow> string option \<times> Values" where
  "example_ParseForm body =
     (case body of
        None \<Rightarrow> (Some ''missing form body'', Map.empty)
      | Some (Inl err) \<Rightarrow> (Some err, Map.empty)
      | Some (Inr b) \<Rightarrow> (snd (example_ParseQuery b), fst (example_ParseQuery b)))"

definition example_Compile :: "string \<Rightarrow> string + (string \<Rightarrow> bool)" where
  "example_Compile s =
     (if s = ''('' then Inl ''missing closing )''
      else Inr (\<lambda>t. s = ''.*'' \<or> s = [] \<or> s = t))"

definition example_NewFastRegexMatcher :: "string \<Rightarrow> string option" where
  "example_NewFastRegexMatcher s = (if s = ''('' then Some ''missing closing )'' else None)"

definition example_ParseExpr :: "string \<Rightarrow> string + Expr" where
  "example_ParseExpr s =
     (if s \<noteq> [] \<and> list_all (\<lambda>c. c \<in> set ''abcdefghijklmnopqrstuvwxyz_'') s
      then Inr [VectorSelector s []]
      else Inl ''parse error'')"

definition job_api :: Matcher where
  "job_api = \<lparr>Name = ''job'', Type = MatchEqual, Value = ''api''\<rparr>"

definition tenant_team_a :: Matcher where
  "tenant_team_a = \<lparr>Name = ''tenant'', Type = MatchEqual, Value = ''team-a''\<rparr>"

definition example_ParseMetricSelector :: "string \<Rightarrow> string + Matcher list" where
  "example_ParseMetricSelector s =
     (case find (\<lambda>ms. matchersToString ms = s) [[job_api], [job_api, tenant_team_a]] of
        Some ms \<Rightarrow> Inr ms
      | None \<Rightarrow> Inl ''parse error'')"

definition example_ext :: Ext where
  "example_ext =
     \<lparr>ParseQuery = example_ParseQuery, Encode = example_Encode,
      ParseForm = example_ParseForm, regexp_Compile = example_Compile,
      NewFastRegexMatcher = example_NewFastRegexMatcher,
      ParseExpr = example_ParseExpr, ParseMetricSelector = example_ParseMetricSelector\<rparr>"

definition example_routes :: routes where
  "example_routes =
     \<lparr>label = ''tenant'', errorOnReplace = False, regexMatch = False,
      rulesWithActiveAlerts = False, bypassQueries = []\<rparr>"

definition example_get :: "string \<Rightarrow> string list \<Rightarrow> Request" where
  "example_get rawQuery labels =
     \<lparr>Method = ''GET'', RawQuery = rawQuery, Body = None, ContentLength = 0,
      ctxLabels = Some labels\<rparr>"

definition example_post :: "string \<Rightarrow> string \<Rightarrow> string list \<Rightarrow> Request" where
  "example_post rawQuery body labels =
     \<lparr>Method = ''POST'', RawQuery = rawQuery, Body = Some (Inr body),
      ContentLength = int (length body), ctxLabels = Some labels\<rparr>"

section \<open>Properties of the strict router\<close>

lemma sanitize_loop_fixed: "sanitize_loop n n = n"
  by (subst sanitize_loop.simps) simp

lemma sanitize_loop_next: "sanitize_loop n s = n"
  by (subst sanitize_loop.simps) (simp add: sanitize_loop_fixed)

lemma sanitize_TrimSuffix: "sanitize pattern = TrimSuffix pattern ''/''"
  by (simp add: sanitize_def sanitize_loop_next)

lemma HasSuffix_slash: "HasSuffix s ''/'' \<longleftrightarrow> s \<noteq> [] \<and> last s = CHR ''/''"
proof (cases s rule: rev_cases)
  case Nil
  then show ?thesis by (simp add: HasSuffix_def)
next
  case (snoc ys y)
  then show ?thesis by (simp add: HasSuffix_def)
qed

lemma sanitize_cases:
  "sanitize pattern = (if HasSuffix pattern ''/'' then butlast pattern else pattern)"
  by (simp add: sanitize_TrimSuffix TrimSuffix_def butlast_conv_take)

lemma sanitize_snoc_slash: "sanitize (b @ ''/'') = b"
  by (simp add: sanitize_cases HasSuffix_slash)

lemma HasPrefix_append: "HasPrefix (p @ s) p"
  by (simp add: HasPrefix_def)

lemma Handle_error_iff:
  "isl (Handle s pattern h) \<longleftrightarrow>
     (\<exists>p \<in> set (seen s). HasPrefix (sanitize pattern @ ''/'') (p @ ''/''))"
proof (cases "sanitize pattern \<in> set (seen s)")
  case True
  then have "isl (Handle s pattern h)" by (simp add: Handle_def Let_def)
  moreover have "HasPrefix (sanitize pattern @ ''/'') (sanitize pattern @ ''/'')"
    by (simp add: HasPrefix_def)
  ultimately show ?thesis using True by blast
next
  case False
  show ?thesis
  proof (cases "find (\<lambda>p. HasPrefix (sanitize pattern @ ''/'') (p @ ''/'')) (seen s)")
    case None
    then have "\<forall>p \<in> set (seen s). \<not> HasPrefix (sanitize pattern @ ''/'') (p @ ''/'')"
      by (simp add: find_None_iff)
    moreover have "\<not> isl (Handle s pattern h)"
      using False None by (simp add: Handle_def Let_def)
    ultimately show ?thesis by blast
  next
    case (Some p)
    then have "p \<in> set (seen s)" "HasPrefix (sanitize pattern @ ''/'') (p @ ''/'')"
      by (auto simp: find_Some_iff)
    then show ?thesis using False Some by (auto simp: Handle_def Let_def)
  qed
qed

lemma Handle_success:
  assumes "\<forall>p \<in> set (seen s). \<not> HasPrefix (sanitize pattern @ ''/'') (p @ ''/'')"
  shows "Handle s pattern h =
           Inr \<lparr>mux = mux s @ [(sanitize pattern, h), (sanitize pattern @ ''/'', h)],
                seen = seen s @ [sanitize pattern]\<rparr>"
proof -
  have "sanitize pattern \<notin> set (seen s)"
    using assms HasPrefix_append [of "sanitize pattern @ ''/''" "[]"] by auto
  moreover have "find (\<lambda>p. HasPrefix (sanitize pattern @ ''/'') (p @ ''/'')) (seen s) = None"
    using assms by (simp add: find_None_iff)
  ultimately show ?thesis by (simp add: Handle_def Let_def)
qed

lemma Handle_seen: "Handle s pattern h = Inr s' \<Longrightarrow> seen s' = seen s @ [sanitize pattern]"
  by (auto simp: Handle_def Let_def Let_def split: if_splits option.splits)

lemma HandleAll_seen:
  "HandleAll s regs = Inr s' \<Longrightarrow> seen s' = seen s @ map (\<lambda>(p, h). sanitize p) regs"
proof (induction regs arbitrary: s)
  case Nil
  then show ?case by simp
next
  case (Cons reg regs)
  obtain p h where reg: "reg = (p, h)" by (cases reg)
  from Cons.prems reg obtain s1 where s1: "Handle s p h = Inr s1" "HandleAll s1 regs = Inr s'"
    by (auto split: sum.splits)
  from Cons.IH [OF s1(2)] Handle_seen [OF s1(1)] reg show ?case by simp
qed

text \<open>
  C2 (amended). After any sequence of registrations that succeeded, \<open>seen\<close> holds the
  normalized paths in registration order. Registering a pattern whose normalized
  path is already registered is the "already registered" error. \<open>Handle\<close> returns
  an error exactly when some registered path \<open>p\<close> has \<open>p + "/"\<close> as a prefix of
  \<open>normalized + "/"\<close>, that is when the new path is a registered path or lies under
  one. A path above a registered one is not rejected. Otherwise the handler is
  registered under the normalized path and under it with a trailing slash.
\<close>

theorem strictMux_rejects_children_only:
  assumes "HandleAll (newStrictMux m) regs = Inr s"
  shows "seen s = map (\<lambda>(p, h). sanitize p) regs
       \<and> (sanitize pattern \<in> set (seen s) \<longrightarrow>
            Handle s pattern h = Inl (AlreadyRegistered (sanitize pattern)))
       \<and> (isl (Handle s pattern h) \<longleftrightarrow>
            (\<exists>p \<in> set (seen s). HasPrefix (sanitize pattern @ ''/'') (p @ ''/'')))
       \<and> (\<not> isl (Handle s pattern h) \<longrightarrow>
            Handle s pattern h =
              Inr \<lparr>mux = mux s @ [(sanitize pattern, h), (sanitize pattern @ ''/'', h)],
                   seen = seen s @ [sanitize pattern]\<rparr>)"
proof -
  have "seen s = map (\<lambda>(p, h). sanitize p) regs"
    using HandleAll_seen [OF assms] by (simp add: newStrictMux_def)
  moreover have "sanitize pattern \<in> set (seen s) \<longrightarrow>
      Handle s pattern h = Inl (AlreadyRegistered (sanitize pattern))"
    by (simp add: Handle_def Let_def)
  moreover note Handle_error_iff [of s pattern h]
  moreover have "\<not> isl (Handle s pattern h) \<longrightarrow>
      Handle s pattern h =
        Inr \<lparr>mux = mux s @ [(sanitize pattern, h), (sanitize pattern @ ''/'', h)],
             seen = seen s @ [sanitize pattern]\<rparr>"
    using Handle_success [of s pattern h] Handle_error_iff [of s pattern h] by blast
  ultimately show ?thesis by blast
qed

lemma sanitize_examples:
  "sanitize ''/a'' = ''/a''" "sanitize ''/a/b'' = ''/a/b''" "sanitize ''/b'' = ''/b''"
  "sanitize ''/a//'' = ''/a/''" "sanitize ''/a/'' = ''/a''"
  by (simp_all add: sanitize_TrimSuffix TrimSuffix_def HasSuffix_def)

lemma register_a: "HandleAll (newStrictMux []) [(''/a'', ())] =
     Inr \<lparr>mux = [(''/a'', ()), (''/a/'', ())], seen = [''/a'']\<rparr>"
  by (simp add: Handle_def Let_def newStrictMux_def sanitize_examples HasPrefix_def)

text \<open>The theorem at \<open>/a\<close> registered first: \<open>/a/b\<close> and \<open>/a\<close> are rejected,
  \<open>/b\<close> is registered.\<close>

theorem strictMux_rejects_children_only_witness:
  "HandleAll (newStrictMux []) [(''/a'', ())] =
     Inr \<lparr>mux = [(''/a'', ()), (''/a/'', ())], seen = [''/a'']\<rparr>
   \<and> isl (Handle \<lparr>mux = [(''/a'', ()), (''/a/'', ())], seen = [''/a'']\<rparr> ''/a/b'' ())
   \<and> Handle \<lparr>mux = [(''/a'', ()), (''/a/'', ())], seen = [''/a'']\<rparr> ''/a'' ()
       = Inl (AlreadyRegistered ''/a'')
   \<and> Handle \<lparr>mux = [(''/a'', ()), (''/a/'', ())], seen = [''/a'']\<rparr> ''/b'' ()
       = Inr \<lparr>mux = [(''/a'', ()), (''/a/'', ()), (''/b'', ()), (''/b/'', ())],
              seen = [''/a'', ''/b'']\<rparr>"
proof -
  let ?s = "\<lparr>mux = [(''/a'', ()), (''/a/'', ())], seen = [''/a'']\<rparr>"
  note reg = register_a
  have child: "isl (Handle ?s ''/a/b'' ())"
    using strictMux_rejects_children_only [OF reg, of "''/a/b''" "()"]
    by (simp add: sanitize_examples HasPrefix_def)
  have same: "Handle ?s ''/a'' () = Inl (AlreadyRegistered ''/a'')"
    using strictMux_rejects_children_only [OF reg, of "''/a''" "()"]
    by (simp add: sanitize_examples)
  have other: "Handle ?s ''/b'' () =
      Inr \<lparr>mux = [(''/a'', ()), (''/a/'', ()), (''/b'', ()), (''/b/'', ())],
           seen = [''/a'', ''/b'']\<rparr>"
    using strictMux_rejects_children_only [OF reg, of "''/b''" "()"]
    by (simp add: sanitize_examples HasPrefix_def)
  from reg child same other show ?thesis by simp
qed

text \<open>C2 as stated fails for a parent registered after its child: \<open>/a/b\<close> then \<open>/a\<close>
  registers both.\<close>

theorem strictMux_parent_after_child_counterexample:
  "HandleAll (newStrictMux []) [(''/a/b'', ()), (''/a'', ())] =
     Inr \<lparr>mux = [(''/a/b'', ()), (''/a/b/'', ()), (''/a'', ()), (''/a/'', ())],
          seen = [''/a/b'', ''/a'']\<rparr>"
  by (simp add: Handle_def Let_def newStrictMux_def sanitize_examples HasPrefix_def)

text \<open>
  C10 (amended). Normalization removes one trailing slash, if there is one: a
  pattern \<open>b + "//"\<close> normalizes to \<open>b + "/"\<close>. When \<open>b\<close> is already registered,
  the registration of \<open>b + "//"\<close> is rejected. When no registered path \<open>p\<close> has
  \<open>p + "/"\<close> as a prefix of \<open>b + "//"\<close>, the pattern is registered under \<open>b + "/"\<close>
  and \<open>b + "//"\<close>.
\<close>

theorem sanitize_strips_one_slash:
  "sanitize pattern = (if HasSuffix pattern ''/'' then butlast pattern else pattern)
   \<and> sanitize (b @ ''//'') = b @ ''/''
   \<and> (b \<in> set (seen s) \<longrightarrow> isl (Handle s (b @ ''//'') h))
   \<and> ((\<forall>p \<in> set (seen s). \<not> HasPrefix (b @ ''//'') (p @ ''/'')) \<longrightarrow>
        Handle s (b @ ''//'') h =
          Inr \<lparr>mux = mux s @ [(b @ ''/'', h), (b @ ''//'', h)], seen = seen s @ [b @ ''/'']\<rparr>)"
proof -
  have two: "sanitize (b @ ''//'') = b @ ''/''"
    using sanitize_snoc_slash [of "b @ ''/''"] by simp
  have "b \<in> set (seen s) \<longrightarrow> isl (Handle s (b @ ''//'') h)"
  proof
    assume "b \<in> set (seen s)"
    moreover have "HasPrefix (sanitize (b @ ''//'') @ ''/'') (b @ ''/'')"
      by (simp add: two HasPrefix_def)
    ultimately show "isl (Handle s (b @ ''//'') h)"
      unfolding Handle_error_iff by blast
  qed
  moreover have "(\<forall>p \<in> set (seen s). \<not> HasPrefix (b @ ''//'') (p @ ''/'')) \<longrightarrow>
        Handle s (b @ ''//'') h =
          Inr \<lparr>mux = mux s @ [(b @ ''/'', h), (b @ ''//'', h)], seen = seen s @ [b @ ''/'']\<rparr>"
    using Handle_success [of s "b @ ''//''" h] by (simp add: two)
  ultimately show ?thesis using two sanitize_cases by blast
qed

text \<open>The theorem at \<open>/a//\<close>, on a router that holds \<open>/a\<close> and on an empty one.\<close>

theorem sanitize_strips_one_slash_witness:
  "sanitize ''/a//'' = ''/a/''
   \<and> isl (Handle \<lparr>mux = [(''/a'', ()), (''/a/'', ())], seen = [''/a'']\<rparr> ''/a//'' ())
   \<and> Handle (newStrictMux []) ''/a//'' () =
       Inr \<lparr>mux = [(''/a/'', ()), (''/a//'', ())], seen = [''/a/'']\<rparr>"
  using sanitize_strips_one_slash [of "''/a//''" "''/a''"
          "\<lparr>mux = [(''/a'', ()), (''/a/'', ())], seen = [''/a'']\<rparr>" "()"]
        sanitize_strips_one_slash [of "''/a//''" "''/a''" "newStrictMux []" "()"]
  by (simp add: newStrictMux_def)

text \<open>C10 as stated fails when \<open>/a\<close> is registered first: \<open>/a//\<close> is then rejected as
  sharing \<open>/a\<close>.\<close>

theorem double_slash_collides_counterexample:
  "HandleAll (newStrictMux []) [(''/a'', ()), (''/a//'', ())] =
     Inl (SharesRegistered ''/a'' ''/a/'')"
  by (simp add: Handle_def Let_def newStrictMux_def sanitize_examples HasPrefix_def)

section \<open>Properties of the error handler\<close>

lemma WriteHeader_fresh:
  "\<not> wroteHeader w \<Longrightarrow> WriteHeader code w = w\<lparr>wroteHeader := True, status := code\<rparr>"
  by (simp add: WriteHeader_def)

lemma WriteHeader_superfluous: "wroteHeader w \<Longrightarrow> WriteHeader code w = w"
  by (simp add: WriteHeader_def)

text \<open>
  C9. On a response whose header is not written yet, \<open>errorHandler\<close> leaves the
  status 502, except for an error that is (or wraps) the response-modification
  error, where the status is 400: the call \<open>WriteHeader(502)\<close> that follows is
  superfluous and does not change it.
\<close>

theorem errorHandler_status:
  assumes "\<not> wroteHeader rw"
  shows "wroteHeader (errorHandler rw err)
       \<and> status (errorHandler rw err) =
           (if errors_Is err errModifyResponseFailed then StatusBadRequest else StatusBadGateway)
       \<and> sentStatus (errorHandler rw err) =
           (if errors_Is err errModifyResponseFailed then StatusBadRequest else StatusBadGateway)"
proof (cases "errors_Is err errModifyResponseFailed")
  case True
  have "errorHandler rw err = WriteHeader StatusBadGateway (WriteHeader StatusBadRequest rw)"
    using True by (simp add: errorHandler_def)
  also have "\<dots> = rw\<lparr>wroteHeader := True, status := StatusBadRequest\<rparr>"
    using assms by (simp add: WriteHeader_fresh WriteHeader_superfluous)
  finally show ?thesis using True by (simp add: sentStatus_def)
next
  case False
  have "errorHandler rw err = rw\<lparr>wroteHeader := True, status := StatusBadGateway\<rparr>"
    using False assms by (simp add: errorHandler_def WriteHeader_fresh)
  then show ?thesis using False by (simp add: sentStatus_def)
qed

text \<open>The theorem at a wrapped response-modification error and at another error.\<close>

theorem errorHandler_status_witness:
  "status (errorHandler newResponseWriter (Wrapped ''rules'' errModifyResponseFailed)) = 400
   \<and> status (errorHandler newResponseWriter (ErrorString ''connection refused'')) = 502"
proof -
  have fresh: "\<not> wroteHeader newResponseWriter"
    by (simp add: newResponseWriter_def)
  show ?thesis
    using errorHandler_status [OF fresh, of "Wrapped ''rules'' errModifyResponseFailed"]
          errorHandler_status [OF fresh, of "ErrorString ''connection refused''"]
    by simp
qed

section \<open>Properties of the query handler's matcher\<close>

lemma prometheusAPIError_fresh:
  "\<not> wroteHeader w \<Longrightarrow>
     prometheusAPIError w msg code =
       w\<lparr>wroteHeader := True, status := code, written := written w @ [msg]\<rparr>"
  by (simp add: prometheusAPIError_def Write_def WriteHeader_def Let_def)

lemma prometheusAPIError_status:
  "\<not> wroteHeader w \<Longrightarrow> sentStatus (prometheusAPIError w msg code) = code"
  by (simp add: prometheusAPIError_fresh sentStatus_def)

lemma prometheusAPIError_rejected:
  "\<not> wroteHeader w \<Longrightarrow> rejected code (Returned (prometheusAPIError w msg code))"
  by (simp add: rejected_def prometheusAPIError_status)

lemma MustLabelValues_Some:
  "ctxLabels req = Some lvs \<Longrightarrow> lvs \<noteq> [] \<Longrightarrow>
     MustLabelValues req = Some (sort lvs, req\<lparr>ctxLabels := Some (sort lvs)\<rparr>)"
  by (simp add: MustLabelValues_def)

lemma MustLabelValues_single:
  "ctxLabels req = Some [v] \<Longrightarrow> MustLabelValues req = Some ([v], req)"
  by (simp add: MustLabelValues_def)

lemma MustLabelValue_single:
  "ctxLabels req = Some [v] \<Longrightarrow> MustLabelValue req = Some (v, req)"
  by (simp add: MustLabelValue_def MustLabelValues_single)

lemma query_matcher_multi:
  assumes "ctxLabels req = Some lvs" "1 < length lvs"
  shows "query_matcher ext r req =
           Some (if regexMatch r
                 then Inl (''Only one label value allowed with regex match'', StatusBadRequest)
                 else Inr \<lparr>Name = label r, Type = MatchRegexp,
                           Value = labelValuesToRegexpString (sort lvs)\<rparr>)"
proof -
  from assms have "lvs \<noteq> []" by auto
  from MustLabelValues_Some [OF assms(1) this] assms(2) show ?thesis
    by (simp add: query_matcher_def)
qed

lemma query_matcher_single:
  assumes "ctxLabels req = Some [v]"
  shows "query_matcher ext r req =
           Some (if regexMatch r then
                   (case regexp_Compile ext v of
                      Inl err \<Rightarrow> Inl (err, StatusBadRequest)
                    | Inr compiledRegex \<Rightarrow>
                        if compiledRegex []
                        then Inl (''Regex should not match empty string'', StatusBadRequest)
                        else Inr \<lparr>Name = label r, Type = MatchRegexp, Value = v\<rparr>)
                 else Inr \<lparr>Name = label r, Type = MatchEqual, Value = v\<rparr>)"
  using assms
  by (simp add: query_matcher_def MustLabelValues_single MustLabelValue_single
           split: sum.splits)

lemma query_rejects:
  "query_matcher ext r req = Some (Inl (msg, code)) \<Longrightarrow>
     query ext r w req = Returned (prometheusAPIError w msg code)"
  by (simp add: query_def)

text \<open>
  C1 (amended). For a request to the query handler whose tenant-identity set has
  more than one member: with regex mode enabled the request is rejected with status
  400 and is not forwarded; with regex mode disabled the matcher to inject is a
  regular-expression matcher on the tenant label whose value is the alternation of
  the regex-escaped identities, in sorted order.
\<close>

theorem query_multiple_values:
  assumes "ctxLabels req = Some lvs" "1 < length lvs" "\<not> wroteHeader w"
  shows "(regexMatch r \<longrightarrow>
            query ext r w req =
              Returned (prometheusAPIError w ''Only one label value allowed with regex match''
                          StatusBadRequest)
            \<and> rejected StatusBadRequest (query ext r w req))
       \<and> (\<not> regexMatch r \<longrightarrow>
            query_matcher ext r req =
              Some (Inr \<lparr>Name = label r, Type = MatchRegexp,
                         Value = Join (map QuoteMeta (sort lvs)) ''|''\<rparr>))"
proof (cases "regexMatch r")
  case True
  then have "query_matcher ext r req =
      Some (Inl (''Only one label value allowed with regex match'', StatusBadRequest))"
    using query_matcher_multi [OF assms(1,2)] by simp
  from query_rejects [OF this] True assms(3) show ?thesis
    by (simp add: prometheusAPIError_rejected)
next
  case False
  then show ?thesis
    using query_matcher_multi [OF assms(1,2)] by (simp add: labelValuesToRegexpString_def)
qed

text \<open>The definitions that evaluating a handler on an example unfolds.\<close>

lemmas example_defs =
  example_ext_def example_routes_def example_get_def example_post_def
  example_ParseQuery_def example_Encode_def example_ParseForm_def example_Compile_def
  example_NewFastRegexMatcher_def example_ParseExpr_def example_ParseMetricSelector_def
  job_api_def tenant_team_a_def

lemmas model_defs =
  query_def query_matcher_def MustLabelValues_def MustLabelValue_def
  enforceQueryValues_def Enforce_def EnforceMatchers_def NewPromQLEnforcer_def
  Expr_String_def matchersToString_def Matcher_String_def strconv_Quote_def quote_byte_def
  labelValuesToRegexpString_def QuoteMeta_def regexp_special_def
  URL_Query_def Values_Get_def Values_Set_def queryParam_def matchersParam_def MethodPost_def
  prometheusAPIError_def Write_def WriteHeader_def newResponseWriter_def HasPrefix_def
  sentStatus_def rejected_def forwarded_def Let_def

text \<open>The theorem at the identities \<open>team-b\<close>, \<open>team-a\<close>, with regex mode on and off.\<close>

theorem query_multiple_values_witness:
  \<open>query example_ext (example_routes\<lparr>regexMatch := True\<rparr>) newResponseWriter
      (example_get ''query=up'' [''team-b'', ''team-a''])
    = Returned \<lparr>wroteHeader = True, status = 400,
                 written = [''Only one label value allowed with regex match'']\<rparr>
   \<and> query_matcher example_ext example_routes (example_get ''query=up'' [''team-b'', ''team-a''])
    = Some (Inr \<lparr>Name = ''tenant'', Type = MatchRegexp, Value = ''team-a|team-b''\<rparr>)\<close>
proof -
  let ?req = "example_get ''query=up'' [''team-b'', ''team-a'']"
  have lv: "ctxLabels ?req = Some [''team-b'', ''team-a'']" by (simp add: example_get_def)
  have len: "1 < length [''team-b'', ''team-a'']" by simp
  have fresh: "\<not> wroteHeader newResponseWriter" by (simp add: newResponseWriter_def)
  show ?thesis
    using query_multiple_values [OF lv len fresh, of "example_routes\<lparr>regexMatch := True\<rparr>" example_ext]
          query_multiple_values [OF lv len fresh, of example_routes example_ext]
    by (simp add: example_routes_def prometheusAPIError_def Write_def WriteHeader_def
          newResponseWriter_def QuoteMeta_def regexp_special_def)
qed

text \<open>C1 as stated fails both ways: with regex mode disabled the two identities are
  not rejected, the query is forwarded with the alternation matcher; with regex mode
  enabled they are rejected with status 400.\<close>

theorem query_multiple_values_counterexample:
  \<open>query example_ext example_routes newResponseWriter
      (example_get ''query=up'' [''team-b'', ''team-a''])
    = Forwarded newResponseWriter
        (example_get ''query=up{tenant=~"team-a|team-b"}'' [''team-a'', ''team-b''])
   \<and> query example_ext (example_routes\<lparr>regexMatch := True\<rparr>) newResponseWriter
      (example_get ''query=up'' [''team-b'', ''team-a''])
    = Returned \<lparr>wroteHeader = True, status = 400,
                 written = [''Only one label value allowed with regex match'']\<rparr>\<close>
  by (simp add: model_defs example_defs)

section \<open>The single-value scenario\<close>

lemma Enforce_bare_selector:
  assumes "ParseExpr ext q = Inr [VectorSelector name []]"
  shows "Enforce ext (NewPromQLEnforcer eor m) q = Inr (name @ matchersToString [m])"
  using assms
  by (simp add: Enforce_def EnforceMatchers_def NewPromQLEnforcer_def Expr_String_def)

lemma tenant_matcher_string:
  \<open>matchersToString [\<lparr>Name = ''tenant'', Type = MatchEqual, Value = ''team-a''\<rparr>]
     = ''{tenant="team-a"}''\<close>
  by (simp add: matchersToString_def Matcher_String_def strconv_Quote_def quote_byte_def)

lemma query_get_found:
  assumes m: "query_matcher ext r req = Some (Inr m)"
      and lv: "MustLabelValues req = Some (lvs, req0)"
      and get: "Method req \<noteq> MethodPost"
      and q: "Values_Get (URL_Query ext req) queryParam \<noteq> []"
      and enf: "Enforce ext (NewPromQLEnforcer (errorOnReplace r) m)
                  (Values_Get (URL_Query ext req) queryParam) = Inr q'"
  shows "query ext r w req =
           Forwarded w (req0\<lparr>RawQuery :=
             Encode ext (Values_Set (URL_Query ext req) queryParam q')\<rparr>)"
proof -
  from lv have raw: "RawQuery req0 = RawQuery req" and meth: "Method req0 = Method req"
    by (auto simp: MustLabelValues_def split: option.splits if_splits)
  then have url: "URL_Query ext req0 = URL_Query ext req" by (simp add: URL_Query_def)
  show ?thesis
    using m lv get q enf url meth
    by (simp add: query_def enforceQueryValues_def)
qed

text \<open>
  C3. For a request to the query handler whose tenant-identity set has exactly one
  member, with regex mode off, the matcher to inject is the equality matcher on the
  configured tenant label with that value. In particular, with the set
  \<open>["team-a"]\<close>, the label \<open>tenant\<close> and the query \<open>up\<close> in the URL of a request that
  is not a POST (\<open>up\<close> parsing as a bare selector), the enforced query is
  \<^verbatim>\<open>up{tenant="team-a"}\<close> and the request is forwarded with it.
\<close>

theorem query_single_value_equality:
  assumes "ctxLabels req = Some [v]" "\<not> regexMatch r"
  shows \<open>query_matcher ext r req = Some (Inr \<lparr>Name = label r, Type = MatchEqual, Value = v\<rparr>)
       \<and> (label r = ''tenant'' \<and> v = ''team-a'' \<and> Method req \<noteq> MethodPost
            \<and> Values_Get (URL_Query ext req) queryParam = ''up''
            \<and> ParseExpr ext ''up'' = Inr [VectorSelector ''up'' []]
          \<longrightarrow> Enforce ext (NewPromQLEnforcer (errorOnReplace r)
                   \<lparr>Name = label r, Type = MatchEqual, Value = v\<rparr>) ''up''
                = Inr ''up{tenant="team-a"}''
            \<and> query ext r w req =
                Forwarded w (req\<lparr>RawQuery :=
                  Encode ext (Values_Set (URL_Query ext req) queryParam
                    ''up{tenant="team-a"}'')\<rparr>))\<close>
proof -
  have m: "query_matcher ext r req = Some (Inr \<lparr>Name = label r, Type = MatchEqual, Value = v\<rparr>)"
    using query_matcher_single [OF assms(1), of ext r] assms(2) by simp
  have lv: "MustLabelValues req = Some ([v], req)"
    by (rule MustLabelValues_single [OF assms(1)])
  {
    assume sc: "label r = ''tenant''" "v = ''team-a''" "Method req \<noteq> MethodPost"
      "Values_Get (URL_Query ext req) queryParam = ''up''"
      "ParseExpr ext ''up'' = Inr [VectorSelector ''up'' []]"
    have enf: \<open>Enforce ext (NewPromQLEnforcer (errorOnReplace r)
                 \<lparr>Name = label r, Type = MatchEqual, Value = v\<rparr>) ''up''
               = Inr ''up{tenant="team-a"}''\<close>
      using Enforce_bare_selector [OF sc(5)] sc(1,2) by (simp add: tenant_matcher_string)
    have \<open>query ext r w req =
        Forwarded w (req\<lparr>RawQuery :=
          Encode ext (Values_Set (URL_Query ext req) queryParam ''up{tenant="team-a"}'')\<rparr>)\<close>
      using query_get_found [OF m lv sc(3), of "''up{tenant=\"team-a\"}''" w] sc(4) enf
      by simp
    note enf this
  }
  with m show ?thesis by blast
qed

text \<open>The theorem at the scenario's request, with the example collaborators.\<close>

theorem query_single_value_equality_witness:
  \<open>query_matcher example_ext example_routes (example_get ''query=up'' [''team-a''])
     = Some (Inr \<lparr>Name = ''tenant'', Type = MatchEqual, Value = ''team-a''\<rparr>)
   \<and> Enforce example_ext
        (NewPromQLEnforcer False \<lparr>Name = ''tenant'', Type = MatchEqual, Value = ''team-a''\<rparr>)
        ''up''
     = Inr ''up{tenant="team-a"}''
   \<and> query example_ext example_routes newResponseWriter (example_get ''query=up'' [''team-a''])
     = Forwarded newResponseWriter (example_get ''query=up{tenant="team-a"}'' [''team-a''])\<close>
proof -
  let ?req = "example_get ''query=up'' [''team-a'']"
  have lv: "ctxLabels ?req = Some [''team-a'']" by (simp add: example_get_def)
  have off: "\<not> regexMatch example_routes" by (simp add: example_routes_def)
  have sc: "label example_routes = ''tenant''" "Method ?req \<noteq> MethodPost"
      "Values_Get (URL_Query example_ext ?req) queryParam = ''up''"
      "ParseExpr example_ext ''up'' = Inr [VectorSelector ''up'' []]"
      "errorOnReplace example_routes = False"
    by (simp_all add: example_defs URL_Query_def Values_Get_def queryParam_def
          MethodPost_def HasPrefix_def)
  have enc: \<open>?req\<lparr>RawQuery := Encode example_ext
        (Values_Set (URL_Query example_ext ?req) queryParam ''up{tenant="team-a"}'')\<rparr>
      = example_get ''query=up{tenant="team-a"}'' [''team-a'']\<close>
    by (simp add: example_defs Values_Set_def queryParam_def)
  show ?thesis
    using query_single_value_equality [OF lv off, of example_ext newResponseWriter] sc enc
    by simp
qed

section \<open>Regex mode\<close>

lemma newLabelMatcher_regex_single:
  "regexMatch r \<Longrightarrow>
     newLabelMatcher ext r [v] =
       (case regexp_Compile ext v of
          Inl err \<Rightarrow> Inl (''invalid regex: '' @ err)
        | Inr compiledRegex \<Rightarrow>
            if compiledRegex [] then Inl ''regex should not match empty string''
            else NewMatcher ext MatchRegexp (label r) v)"
  by (simp add: newLabelMatcher_def)

lemma newLabelMatcher_regex_multi:
  "regexMatch r \<Longrightarrow> length vals \<noteq> 1 \<Longrightarrow>
     newLabelMatcher ext r vals = Inl ''only one label value allowed with regex match''"
  by (cases vals; cases "tl vals") (auto simp: newLabelMatcher_def)

lemma matcher_rejects:
  "MustLabelValues req = Some (lvs, req0) \<Longrightarrow> newLabelMatcher ext r lvs = Inl err \<Longrightarrow>
     matcher ext r w req = Returned (prometheusAPIError w err StatusBadRequest)"
  by (simp add: matcher_def)

lemma regex_multi_rejected:
  assumes "regexMatch r" "ctxLabels req = Some lvs" "1 < length lvs" "\<not> wroteHeader w"
  shows "rejected StatusBadRequest (query ext r w req)
       \<and> rejected StatusBadRequest (matcher ext r w req)"
proof -
  from assms(3) have ne: "lvs \<noteq> []" by auto
  have "query_matcher ext r req =
      Some (Inl (''Only one label value allowed with regex match'', StatusBadRequest))"
    using query_matcher_multi [OF assms(2,3), of ext r] assms(1) by simp
  from query_rejects [OF this] assms(4)
  have q: "rejected StatusBadRequest (query ext r w req)"
    by (simp add: prometheusAPIError_rejected)
  have "length (sort lvs) \<noteq> 1" using assms(3) by simp
  from newLabelMatcher_regex_multi [OF assms(1) this]
       matcher_rejects [OF MustLabelValues_Some [OF assms(2) ne]] assms(4)
  have "rejected StatusBadRequest (matcher ext r w req)"
    by (simp add: prometheusAPIError_rejected)
  with q show ?thesis by simp
qed

lemma regex_single_rejected:
  assumes "regexMatch r" "ctxLabels req = Some [v]" "\<not> wroteHeader w"
      and bad: "isl (regexp_Compile ext v) \<or> (\<exists>rx. regexp_Compile ext v = Inr rx \<and> rx [])"
  shows "rejected StatusBadRequest (query ext r w req)
       \<and> rejected StatusBadRequest (matcher ext r w req)"
proof -
  from bad obtain msg where "query_matcher ext r req = Some (Inl (msg, StatusBadRequest))"
    using query_matcher_single [OF assms(2), of ext r] assms(1)
    by (auto simp: isl_def)
  from query_rejects [OF this] assms(3)
  have q: "rejected StatusBadRequest (query ext r w req)"
    by (simp add: prometheusAPIError_rejected)
  from bad obtain err where "newLabelMatcher ext r [v] = Inl err"
    using newLabelMatcher_regex_single [OF assms(1), of ext v]
    by (auto simp: isl_def)
  from matcher_rejects [OF MustLabelValues_single [OF assms(2)] this] assms(3)
  have "rejected StatusBadRequest (matcher ext r w req)"
    by (simp add: prometheusAPIError_rejected)
  with q show ?thesis by simp
qed

text \<open>
  C6. With regex mode enabled, for the query handler and for the selector handler:
  a single tenant identity is compiled as a regular expression, and the request is
  rejected with status 400 when the compilation fails or the compiled expression
  matches the empty string (otherwise the query handler's matcher is the
  regular-expression matcher with that value); and a request whose identities
  include a value that matches the empty string is rejected with status 400,
  however many identities there are.
\<close>

theorem regex_mode_rejections:
  assumes "regexMatch r" "ctxLabels req = Some lvs" "lvs \<noteq> []" "\<not> wroteHeader w"
  shows "(\<forall>v. lvs = [v] \<longrightarrow>
            (case regexp_Compile ext v of
               Inl err \<Rightarrow>
                 rejected StatusBadRequest (query ext r w req)
                 \<and> rejected StatusBadRequest (matcher ext r w req)
             | Inr compiledRegex \<Rightarrow>
                 if compiledRegex []
                 then rejected StatusBadRequest (query ext r w req)
                      \<and> rejected StatusBadRequest (matcher ext r w req)
                 else query_matcher ext r req =
                        Some (Inr \<lparr>Name = label r, Type = MatchRegexp, Value = v\<rparr>)))
       \<and> ((\<exists>v \<in> set lvs. \<exists>rx. regexp_Compile ext v = Inr rx \<and> rx []) \<longrightarrow>
            rejected StatusBadRequest (query ext r w req)
            \<and> rejected StatusBadRequest (matcher ext r w req))"
proof -
  have single: "case regexp_Compile ext v of
          Inl err \<Rightarrow>
            rejected StatusBadRequest (query ext r w req)
            \<and> rejected StatusBadRequest (matcher ext r w req)
        | Inr compiledRegex \<Rightarrow>
            if compiledRegex []
            then rejected StatusBadRequest (query ext r w req)
                 \<and> rejected StatusBadRequest (matcher ext r w req)
            else query_matcher ext r req =
                   Some (Inr \<lparr>Name = label r, Type = MatchRegexp, Value = v\<rparr>)"
    if one: "lvs = [v]" for v
  proof (cases "regexp_Compile ext v")
    case (Inl err)
    then show ?thesis
      using regex_single_rejected [of r req v w ext] assms one by simp
  next
    case (Inr rx)
    show ?thesis
    proof (cases "rx []")
      case True
      then show ?thesis
        using regex_single_rejected [of r req v w ext] assms one Inr by simp
    next
      case False
      then show ?thesis
        using query_matcher_single [of req v ext r] assms one Inr by simp
    qed
  qed
  have empty: "rejected StatusBadRequest (query ext r w req)
      \<and> rejected StatusBadRequest (matcher ext r w req)"
    if v: "v \<in> set lvs" "regexp_Compile ext v = Inr rx" "rx []" for v rx
  proof (cases "1 < length lvs")
    case True
    then show ?thesis using regex_multi_rejected [of r req lvs w ext] assms by simp
  next
    case False
    with assms(3) v(1) have "lvs = [v]" by (cases lvs) auto
    then show ?thesis using regex_single_rejected [of r req v w ext] assms v by auto
  qed
  from single empty show ?thesis by blast
qed

text \<open>The theorem at the identities \<open>.*\<close> (matches the empty string), \<open>(\<close> (does
  not compile) and \<open>team-.+\<close>.\<close>

theorem regex_mode_rejections_witness:
  "rejected 400 (query example_ext (example_routes\<lparr>regexMatch := True\<rparr>) newResponseWriter
      (example_get ''query=up'' [''.*'']))
   \<and> rejected 400 (matcher example_ext (example_routes\<lparr>regexMatch := True\<rparr>) newResponseWriter
      (example_get ''query=up'' [''.*'']))
   \<and> rejected 400 (query example_ext (example_routes\<lparr>regexMatch := True\<rparr>) newResponseWriter
      (example_get ''query=up'' [''('']))
   \<and> rejected 400 (matcher example_ext (example_routes\<lparr>regexMatch := True\<rparr>) newResponseWriter
      (example_get ''query=up'' [''('']))
   \<and> query_matcher example_ext (example_routes\<lparr>regexMatch := True\<rparr>)
        (example_get ''query=up'' [''team-.+''])
      = Some (Inr \<lparr>Name = ''tenant'', Type = MatchRegexp, Value = ''team-.+''\<rparr>)"
proof -
  let ?r = "example_routes\<lparr>regexMatch := True\<rparr>"
  have on: "regexMatch ?r" by simp
  have fresh: "\<not> wroteHeader newResponseWriter" by (simp add: newResponseWriter_def)
  have lv: "ctxLabels (example_get ''query=up'' lvs) = Some lvs" for lvs
    by (simp add: example_get_def)
  have c: "regexp_Compile example_ext ''.*'' = Inr (\<lambda>t. True)"
      "regexp_Compile example_ext ''('' = Inl ''missing closing )''"
      "regexp_Compile example_ext ''team-.+'' = Inr (\<lambda>t. ''team-.+'' = t)"
    by (simp_all add: example_ext_def example_Compile_def)
  have ne: "[x] \<noteq> []" for x :: string by simp
  show ?thesis
    using regex_mode_rejections [OF on lv ne fresh, of "''.*''" example_ext]
          regex_mode_rejections [OF on lv ne fresh, of "''(''" example_ext]
          regex_mode_rejections [OF on lv ne fresh, of "''team-.+''" example_ext]
    by (simp add: c example_routes_def)
qed

section \<open>Forwarding by the query handler\<close>

lemma MustLabelValues_request:
  "MustLabelValues req = Some (lvs, req0) \<Longrightarrow> req0 = req\<lparr>ctxLabels := Some lvs\<rparr>"
  by (auto simp: MustLabelValues_def split: option.splits if_splits)

lemma query_matcher_labels:
  "query_matcher ext r req = Some x \<Longrightarrow>
     \<exists>lvs. MustLabelValues req = Some (lvs, req\<lparr>ctxLabels := Some lvs\<rparr>)"
  by (cases "MustLabelValues req")
     (auto simp: query_matcher_def dest: MustLabelValues_request)

lemma URL_Query_ctxLabels [simp]: "URL_Query ext (req\<lparr>ctxLabels := c\<rparr>) = URL_Query ext req"
  by (simp add: URL_Query_def)

lemma enforceQueryValues_found:
  "enforceQueryValues ext e v = (q, found, err) \<Longrightarrow> found = (Values_Get v queryParam \<noteq> [])"
  by (auto simp: enforceQueryValues_def split: if_splits sum.splits)

lemma query_forwarded_found:
  assumes "forwarded (query ext r w req)"
  shows "query_in_url ext req \<or> query_in_body ext req"
proof -
  from assms obtain m where m: "query_matcher ext r req = Some (Inr m)"
    by (auto simp: query_def forwarded_def split: option.splits sum.splits prod.splits)
  from query_matcher_labels [OF m] obtain lvs
    where lv: "MustLabelValues req = Some (lvs, req\<lparr>ctxLabels := Some lvs\<rparr>)" by blast
  let ?e = "NewPromQLEnforcer (errorOnReplace r) m"
  obtain q1 f1 e1 where u: "enforceQueryValues ext ?e (URL_Query ext req) = (q1, f1, e1)"
    by (cases "enforceQueryValues ext ?e (URL_Query ext req)") auto
  obtain q2 f2 e2 where
    b: "enforceQueryValues ext ?e (snd (ParseForm ext (Body req))) = (q2, f2, e2)"
    by (cases "enforceQueryValues ext ?e (snd (ParseForm ext (Body req)))") auto
  from assms m lv u b have "f1 \<or> (Method req = MethodPost \<and> f2)"
    by (auto simp: query_def forwarded_def Let_def
             split: option.splits prod.splits if_splits)
  with enforceQueryValues_found [OF u] enforceQueryValues_found [OF b]
  show ?thesis by (auto simp: query_in_url_def query_in_body_def)
qed


lemma enforceQueryValues_no_error:
  assumes "Values_Get v queryParam \<noteq> [] \<longrightarrow> \<not> isl (Enforce ext e (Values_Get v queryParam))"
  shows "\<exists>q. enforceQueryValues ext e v = (q, Values_Get v queryParam \<noteq> [], None)
             \<and> (Values_Get v queryParam = [] \<longrightarrow> q = Encode ext v)"
proof (cases "Values_Get v queryParam = []")
  case True
  then show ?thesis by (simp add: enforceQueryValues_def)
next
  case False
  with assms obtain q' where "Enforce ext e (Values_Get v queryParam) = Inr q'"
    by (cases "Enforce ext e (Values_Get v queryParam)") auto
  with False show ?thesis by (simp add: enforceQueryValues_def)
qed

lemma query_success:
  assumes m: "query_matcher ext r req = Some (Inr m)"
      and lv: "MustLabelValues req = Some (lvs, req\<lparr>ctxLabels := Some lvs\<rparr>)"
      and u: "enforceQueryValues ext (NewPromQLEnforcer (errorOnReplace r) m) (URL_Query ext req)
                = (q1, f1, None)"
      and p: "Method req = MethodPost \<longrightarrow>
                ParseForm ext (Body req) = (None, pf)
                \<and> enforceQueryValues ext (NewPromQLEnforcer (errorOnReplace r) m) pf
                    = (q2, f2, None)"
  shows "query ext r w req =
           (if Method req = MethodPost then
              (if \<not> f1 \<and> \<not> f2 then Returned w
               else Forwarded w (req\<lparr>ctxLabels := Some lvs, RawQuery := q1,
                                     Body := Some (Inr q2), ContentLength := int (length q2)\<rparr>))
            else if \<not> f1 then Returned w
            else Forwarded w (req\<lparr>ctxLabels := Some lvs, RawQuery := q1\<rparr>))"
  using m lv u p by (simp add: query_def)

text \<open>
  C7 (amended). The query handler forwards a request only if the URL query string or
  (on a POST) the body holds a non-empty \<open>query\<close> parameter. When the matcher is
  built, the form of a POST parses and every \<open>query\<close> present is enforced without
  error, the request is forwarded if and only if at least one of the two locations
  holds the parameter; when neither does, the handler returns without writing a
  response and without reaching upstream; and in the forwarded request a location
  without the parameter carries the re-encoding of its own values (the body of a
  request that is not a POST is the body received).
\<close>

theorem query_forwarding:
  "(forwarded (query ext r w req) \<longrightarrow> query_in_url ext req \<or> query_in_body ext req)
   \<and> (query_matcher ext r req = Some (Inr m)
       \<and> (query_in_url ext req \<longrightarrow>
            \<not> isl (Enforce ext (NewPromQLEnforcer (errorOnReplace r) m)
                     (Values_Get (URL_Query ext req) queryParam)))
       \<and> (Method req = MethodPost \<longrightarrow> fst (ParseForm ext (Body req)) = None)
       \<and> (query_in_body ext req \<longrightarrow>
            \<not> isl (Enforce ext (NewPromQLEnforcer (errorOnReplace r) m)
                     (Values_Get (snd (ParseForm ext (Body req))) queryParam)))
      \<longrightarrow> (forwarded (query ext r w req) \<longleftrightarrow> query_in_url ext req \<or> query_in_body ext req)
        \<and> (\<not> query_in_url ext req \<and> \<not> query_in_body ext req \<longrightarrow>
              query ext r w req = Returned w)
        \<and> (\<forall>w' req'. query ext r w req = Forwarded w' req' \<longrightarrow>
              w' = w
              \<and> (\<not> query_in_url ext req \<longrightarrow> RawQuery req' = Encode ext (URL_Query ext req))
              \<and> (Method req = MethodPost \<and> \<not> query_in_body ext req \<longrightarrow>
                    Body req' = Some (Inr (Encode ext (snd (ParseForm ext (Body req))))))
              \<and> (Method req \<noteq> MethodPost \<longrightarrow> Body req' = Body req)))"
proof -
  let ?e = "NewPromQLEnforcer (errorOnReplace r) m"
  let ?pf = "snd (ParseForm ext (Body req))"
  have only_if: "forwarded (query ext r w req) \<longrightarrow> query_in_url ext req \<or> query_in_body ext req"
    using query_forwarded_found by blast
  {
    assume m: "query_matcher ext r req = Some (Inr m)"
      and eu: "query_in_url ext req \<longrightarrow>
                 \<not> isl (Enforce ext ?e (Values_Get (URL_Query ext req) queryParam))"
      and pe: "Method req = MethodPost \<longrightarrow> fst (ParseForm ext (Body req)) = None"
      and eb: "query_in_body ext req \<longrightarrow> \<not> isl (Enforce ext ?e (Values_Get ?pf queryParam))"
    from query_matcher_labels [OF m] obtain lvs
      where lv: "MustLabelValues req = Some (lvs, req\<lparr>ctxLabels := Some lvs\<rparr>)" by blast
    from enforceQueryValues_no_error [of "URL_Query ext req" ext ?e] eu
    obtain q1 where u: "enforceQueryValues ext ?e (URL_Query ext req)
          = (q1, query_in_url ext req, None)"
        and q1: "\<not> query_in_url ext req \<longrightarrow> q1 = Encode ext (URL_Query ext req)"
      by (auto simp: query_in_url_def)
    have "\<exists>q2. (Method req = MethodPost \<longrightarrow>
              ParseForm ext (Body req) = (None, ?pf)
              \<and> enforceQueryValues ext ?e ?pf = (q2, Values_Get ?pf queryParam \<noteq> [], None))
            \<and> (Method req = MethodPost \<and> \<not> query_in_body ext req \<longrightarrow> q2 = Encode ext ?pf)"
    proof (cases "Method req = MethodPost")
      case True
      with eb have "Values_Get ?pf queryParam \<noteq> [] \<longrightarrow>
          \<not> isl (Enforce ext ?e (Values_Get ?pf queryParam))"
        by (simp add: query_in_body_def)
      from enforceQueryValues_no_error [OF this] True pe show ?thesis
        by (auto simp: query_in_body_def prod_eq_iff)
    next
      case False
      then show ?thesis by simp
    qed
    then obtain q2 where
      p: "Method req = MethodPost \<longrightarrow>
            ParseForm ext (Body req) = (None, ?pf)
            \<and> enforceQueryValues ext ?e ?pf = (q2, Values_Get ?pf queryParam \<noteq> [], None)"
      and q2: "Method req = MethodPost \<and> \<not> query_in_body ext req \<longrightarrow> q2 = Encode ext ?pf"
      by blast
    note eq = query_success [OF m lv u p, of w]
    have "(forwarded (query ext r w req) \<longleftrightarrow> query_in_url ext req \<or> query_in_body ext req)
        \<and> (\<not> query_in_url ext req \<and> \<not> query_in_body ext req \<longrightarrow>
              query ext r w req = Returned w)
        \<and> (\<forall>w' req'. query ext r w req = Forwarded w' req' \<longrightarrow>
              w' = w
              \<and> (\<not> query_in_url ext req \<longrightarrow> RawQuery req' = Encode ext (URL_Query ext req))
              \<and> (Method req = MethodPost \<and> \<not> query_in_body ext req \<longrightarrow>
                    Body req' = Some (Inr (Encode ext ?pf)))
              \<and> (Method req \<noteq> MethodPost \<longrightarrow> Body req' = Body req))"
      using q1 q2 unfolding eq
      by (auto simp: forwarded_def query_in_body_def)
  }
  with only_if show ?thesis by blast
qed

text \<open>The theorem at a POST with the query in the body only, and at a GET without a
  query.\<close>

theorem query_forwarding_witness:
  "query_in_body example_ext (example_post [] ''query=up'' [''team-a''])
   \<and> \<not> query_in_url example_ext (example_post [] ''query=up'' [''team-a''])
   \<and> forwarded (query example_ext example_routes newResponseWriter
        (example_post [] ''query=up'' [''team-a'']))
   \<and> query example_ext example_routes newResponseWriter (example_get [] [''team-a''])
       = Returned newResponseWriter"
proof -
  let ?m = "\<lparr>Name = ''tenant'', Type = MatchEqual, Value = ''team-a''\<rparr>"
  let ?e = "NewPromQLEnforcer (errorOnReplace example_routes) ?m"
  let ?post = "example_post [] ''query=up'' [''team-a'']"
  let ?get = "example_get [] [''team-a'']"
  have m: "query_matcher example_ext example_routes ?post = Some (Inr ?m)"
      "query_matcher example_ext example_routes ?get = Some (Inr ?m)"
    by (simp_all add: query_matcher_def MustLabelValues_def MustLabelValue_def example_defs)
  have loc: "query_in_body example_ext ?post" "\<not> query_in_url example_ext ?post"
      "\<not> query_in_body example_ext ?get" "\<not> query_in_url example_ext ?get"
    by (simp_all add: query_in_body_def query_in_url_def URL_Query_def Values_Get_def
          queryParam_def MethodPost_def HasPrefix_def example_defs)
  have form: "fst (ParseForm example_ext (Body ?post)) = None"
      "Method ?get \<noteq> MethodPost"
    by (simp_all add: MethodPost_def HasPrefix_def example_defs)
  have enf: "\<not> isl (Enforce example_ext ?e
      (Values_Get (snd (ParseForm example_ext (Body ?post))) queryParam))"
    by (simp add: Enforce_def EnforceMatchers_def NewPromQLEnforcer_def Values_Get_def
          queryParam_def HasPrefix_def example_defs)
  have "forwarded (query example_ext example_routes newResponseWriter ?post)"
    using query_forwarding [of example_ext example_routes newResponseWriter ?post ?m]
          m(1) loc(1,2) form(1) enf
    by blast
  moreover have "query example_ext example_routes newResponseWriter ?get
      = Returned newResponseWriter"
    using query_forwarding [of example_ext example_routes newResponseWriter ?get ?m]
          m(2) loc(3,4) form(2)
    by blast
  ultimately show ?thesis using loc(1,2) by blast
qed

text \<open>C7 as stated fails for a query that is present and does not parse: the URL holds
  the parameter, the request is answered 400 and is not forwarded.\<close>

theorem query_present_not_forwarded_counterexample:
  "query_in_url example_ext (example_get ''query=up('' [''team-a''])
   \<and> query example_ext example_routes newResponseWriter (example_get ''query=up('' [''team-a''])
       = Returned \<lparr>wroteHeader = True, status = 400, written = [''parse error'']\<rparr>
   \<and> \<not> forwarded (query example_ext example_routes newResponseWriter
          (example_get ''query=up('' [''team-a'']))"
  by (simp add: query_in_url_def model_defs example_defs)

section \<open>Parse failures\<close>

text \<open>Where a parse failure is answered 400: the query expression in the URL, and a
  selector in the URL.\<close>

lemma query_url_parse_failure:
  assumes m: "query_matcher ext r req = Some (Inr m)"
      and q: "query_in_url ext req"
      and e: "ParseExpr ext (Values_Get (URL_Query ext req) queryParam) = Inl err"
      and w: "\<not> wroteHeader w"
  shows "rejected StatusBadRequest (query ext r w req)"
proof -
  from query_matcher_labels [OF m] obtain lvs
    where lv: "MustLabelValues req = Some (lvs, req\<lparr>ctxLabels := Some lvs\<rparr>)" by blast
  have "enforceQueryValues ext (NewPromQLEnforcer (errorOnReplace r) m) (URL_Query ext req)
      = ([], True, Some (ErrQueryParse err))"
    using q e by (simp add: enforceQueryValues_def Enforce_def query_in_url_def)
  then have "query ext r w req = Returned (prometheusAPIError w err StatusBadRequest)"
    using m lv by (simp add: query_def)
  then show ?thesis using w by (simp add: prometheusAPIError_rejected)
qed

lemma injectMatcher_parse_failure:
  assumes "q matchersParam = Some (sel # rest)" "ParseMetricSelector ext sel = Inl err"
  shows "fst (injectMatcher ext q m) = Some err"
  using assms by (simp add: injectMatcher_def)

lemma matcher_url_parse_failure:
  assumes lv: "ctxLabels req = Some lvs" "lvs \<noteq> []"
      and m: "newLabelMatcher ext r (sort lvs) = Inr m"
      and q: "URL_Query ext req matchersParam = Some (sel # rest)"
      and e: "ParseMetricSelector ext sel = Inl err"
      and w: "\<not> wroteHeader w"
  shows "rejected StatusBadRequest (matcher ext r w req)"
proof -
  from injectMatcher_parse_failure [of "URL_Query ext req" sel rest ext err m] q e
  obtain q' where "injectMatcher ext (URL_Query ext req) m = (Some err, q')"
    by (cases "injectMatcher ext (URL_Query ext req) m") auto
  then have "matcher ext r w req = Returned (prometheusAPIError w err StatusBadRequest)"
    using MustLabelValues_Some [OF lv] m by (simp add: matcher_def)
  then show ?thesis using w by (simp add: prometheusAPIError_rejected)
qed

text \<open>The definitions that evaluating the selector handler unfolds.\<close>

lemmas matcher_defs =
  matcher_def newLabelMatcher_def NewMatcher_def injectMatcher_def

text \<open>
  C8 fails on the code for a selector in the body of a POST: when
  \<open>injectMatcher\<close> fails on \<open>req.PostForm\<close>, \<open>routes.matcher\<close> returns without
  writing a response, so the client receives status 200 with an empty body, where
  the same failure on the URL is answered 400. Here the body is \<^verbatim>\<open>match[]={\<close> and the
  selector \<^verbatim>\<open>{\<close> does not parse.
\<close>

theorem matcher_post_body_parse_failure:
  "ParseMetricSelector example_ext ''{'' = Inl ''parse error''
   \<and> snd (ParseForm example_ext (Body (example_post [] ''match[]={'' [''team-a''])))
        matchersParam = Some [''{'']
   \<and> matcher example_ext example_routes newResponseWriter
        (example_post [] ''match[]={'' [''team-a''])
      = Returned newResponseWriter
   \<and> sentStatus newResponseWriter = 200
   \<and> \<not> rejected 400 (matcher example_ext example_routes newResponseWriter
        (example_post [] ''match[]={'' [''team-a'']))"
  by (simp add: matcher_defs model_defs example_defs)

section \<open>Properties of the bypass handler\<close>

lemma extractQueryParam_request: "snd (extractQueryParam ext req) = req"
  by (cases req)
     (auto simp: extractQueryParam_def Let_def split: option.splits sum.splits prod.splits)

lemma extractQueryParam_url:
  "Values_Get (URL_Query ext req) ''query'' \<noteq> [] \<Longrightarrow>
     fst (extractQueryParam ext req) = Inr (Values_Get (URL_Query ext req) ''query'')"
  by (simp add: extractQueryParam_def)

text \<open>
  C4. With a non-empty bypass list: when the query extracted from the request is in
  the list, the upstream handler is called with the request and the response writer
  as they were received, nothing injected; when it is not in the list, or the
  extraction fails, the enforcing chain is called with them. A non-empty \<open>query\<close>
  in the URL is the extracted query.
\<close>

theorem bypassHandler_routes:
  assumes "bq \<noteq> []"
  shows "(\<forall>q. fst (extractQueryParam ext req) = Inr q \<and> q \<in> set bq \<longrightarrow>
            bypassHandler ext bq upstream enforcerChain w req = upstream w req)
       \<and> (\<forall>q. fst (extractQueryParam ext req) = Inr q \<and> q \<notin> set bq \<longrightarrow>
            bypassHandler ext bq upstream enforcerChain w req = enforcerChain w req)
       \<and> (\<forall>err. fst (extractQueryParam ext req) = Inl err \<longrightarrow>
            bypassHandler ext bq upstream enforcerChain w req = enforcerChain w req)
       \<and> (Values_Get (URL_Query ext req) ''query'' \<noteq> [] \<longrightarrow>
            fst (extractQueryParam ext req) = Inr (Values_Get (URL_Query ext req) ''query''))"
proof -
  obtain res req' where x: "extractQueryParam ext req = (res, req')"
    by (cases "extractQueryParam ext req") auto
  with extractQueryParam_request [of ext req] have "req' = req" by simp
  with x assms have
    "(\<forall>q. fst (extractQueryParam ext req) = Inr q \<and> q \<in> set bq \<longrightarrow>
        bypassHandler ext bq upstream enforcerChain w req = upstream w req)
     \<and> (\<forall>q. fst (extractQueryParam ext req) = Inr q \<and> q \<notin> set bq \<longrightarrow>
        bypassHandler ext bq upstream enforcerChain w req = enforcerChain w req)
     \<and> (\<forall>err. fst (extractQueryParam ext req) = Inl err \<longrightarrow>
        bypassHandler ext bq upstream enforcerChain w req = enforcerChain w req)"
    by (auto simp: bypassHandler_def split: sum.splits)
  with extractQueryParam_url [of ext req] show ?thesis by blast
qed

text \<open>The theorem at the query \<open>up\<close> in the URL, with \<open>up\<close> in the bypass list and
  not in it, and at a POST whose body does not parse as a form.\<close>

theorem bypassHandler_routes_witness:
  \<open>bypassHandler example_ext [''up''] Forwarded (query example_ext example_routes)
      newResponseWriter (example_get ''query=up'' [''team-a''])
    = Forwarded newResponseWriter (example_get ''query=up'' [''team-a''])
   \<and> bypassHandler example_ext [''down''] Forwarded (query example_ext example_routes)
      newResponseWriter (example_get ''query=up'' [''team-a''])
    = Forwarded newResponseWriter (example_get ''query=up{tenant="team-a"}'' [''team-a''])
   \<and> bypassHandler example_ext [''up''] Forwarded (query example_ext example_routes)
      newResponseWriter (example_post [] ''up'' [''team-a''])
    = query example_ext example_routes newResponseWriter (example_post [] ''up'' [''team-a''])\<close>
proof -
  let ?get = "example_get ''query=up'' [''team-a'']"
  let ?post = "example_post [] ''up'' [''team-a'']"
  let ?enf = "query example_ext example_routes"
  have x: "fst (extractQueryParam example_ext ?get) = Inr ''up''"
      "fst (extractQueryParam example_ext ?post)
         = Inl ''failed to parse form data: invalid query string''"
    by (simp_all add: extractQueryParam_def URL_Query_def Values_Get_def MethodPost_def
          HasPrefix_def Let_def example_defs)
  have q: \<open>?enf newResponseWriter ?get
      = Forwarded newResponseWriter (example_get ''query=up{tenant="team-a"}'' [''team-a''])\<close>
    by (simp add: model_defs example_defs)
  have ne: "[''up''] \<noteq> []" "[''down''] \<noteq> []" by simp_all
  have mem: "''up'' \<in> set [''up'']" "''up'' \<notin> set [''down'']" by simp_all
  have "bypassHandler example_ext [''up''] Forwarded ?enf newResponseWriter ?get
      = Forwarded newResponseWriter ?get"
    using bypassHandler_routes [OF ne(1), of example_ext ?get Forwarded ?enf newResponseWriter] x(1)
          mem(1)
    by blast
  moreover have "bypassHandler example_ext [''down''] Forwarded ?enf newResponseWriter ?get
      = ?enf newResponseWriter ?get"
    using bypassHandler_routes [OF ne(2), of example_ext ?get Forwarded ?enf newResponseWriter] x(1)
          mem(2)
    by blast
  moreover have "bypassHandler example_ext [''up''] Forwarded ?enf newResponseWriter ?post
      = ?enf newResponseWriter ?post"
    using bypassHandler_routes [OF ne(1), of example_ext ?post Forwarded ?enf newResponseWriter] x(2)
    by blast
  ultimately show ?thesis using q by simp
qed

section \<open>Selector lists\<close>

lemma injectMatcher_loop_parsed:
  "map (ParseMetricSelector ext) ms = map Inr sels \<Longrightarrow>
     injectMatcher_loop ext mt ms = (None, map (\<lambda>sel. matchersToString (sel @ [mt])) sels)"
proof (induction ms arbitrary: sels)
  case Nil
  then show ?case by simp
next
  case (Cons m ms)
  then obtain sel sels' where sels: "sels = sel # sels'"
      and m: "ParseMetricSelector ext m = Inr sel"
      and rest: "map (ParseMetricSelector ext) ms = map Inr sels'"
    by (cases sels) auto
  from Cons.IH [OF rest] m sels show ?case by simp
qed

lemma injectMatcher_loop_length:
  "length (snd (injectMatcher_loop ext mt ms)) = length ms"
  by (induction ms) (auto split: sum.splits prod.splits)

lemma injectMatcher_loop_prefix:
  "map (ParseMetricSelector ext) pre = map Inr sels \<Longrightarrow>
     injectMatcher_loop ext mt (pre @ rest) =
       (fst (injectMatcher_loop ext mt rest),
        map (\<lambda>sel. matchersToString (sel @ [mt])) sels @ snd (injectMatcher_loop ext mt rest))"
proof (induction pre arbitrary: sels)
  case Nil
  then show ?case by simp
next
  case (Cons m ms)
  then obtain sel sels' where sels: "sels = sel # sels'"
      and m: "ParseMetricSelector ext m = Inr sel"
      and tl: "map (ParseMetricSelector ext) ms = map Inr sels'"
    by (cases sels) auto
  from Cons.IH [OF tl] m sels show ?case by simp
qed

lemma injectMatcher_prefix:
  assumes "q matchersParam = Some (pre @ rest)" "pre \<noteq> []"
      and "map (ParseMetricSelector ext) pre = map Inr sels"
  shows "snd (injectMatcher ext q mt) =
           q(matchersParam \<mapsto> map (\<lambda>sel. matchersToString (sel @ [mt])) sels
                                   @ snd (injectMatcher_loop ext mt rest))"
  using assms(1,2) injectMatcher_loop_prefix [OF assms(3), of mt rest]
  by (simp add: injectMatcher_def)

lemma matcher_get_forwards:
  assumes lv: "ctxLabels req = Some lvs" "lvs \<noteq> []"
      and m: "newLabelMatcher ext r (sort lvs) = Inr mt"
      and inj: "injectMatcher ext (URL_Query ext req) mt = (None, q')"
      and get: "Method req \<noteq> MethodPost"
  shows "matcher ext r w req =
           Forwarded w (req\<lparr>ctxLabels := Some (sort lvs), RawQuery := Encode ext q'\<rparr>)"
  using MustLabelValues_Some [OF lv] m inj get by (simp add: matcher_def)

lemma matchersToString_single: "matchersToString [m] = ''{'' @ Matcher_String m @ ''}''"
  by (simp add: matchersToString_def)

text \<open>
  C5. When the \<^verbatim>\<open>match[]\<close> parameter is absent, \<open>injectMatcher\<close> sets it to one
  occurrence, the tenant matcher between braces. When it is present and every
  occurrence parses, each occurrence is replaced by the serialization of its
  matchers followed by the tenant matcher, a brace-delimited, comma-joined list;
  so, the parser reading such a list back as the matchers it was printed from,
  parsing the result yields the original matchers plus the tenant matcher, once,
  at the end. When an occurrence fails to parse, the occurrences before it have
  been replaced in the same way and the number of occurrences is unchanged.
\<close>

theorem injectMatcher_appends_tenant_matcher:
  "(q matchersParam = None \<or> q matchersParam = Some [] \<longrightarrow>
      injectMatcher ext q mt = (None, q(matchersParam \<mapsto> [''{'' @ Matcher_String mt @ ''}''])))
   \<and> (q matchersParam = Some ms \<and> ms \<noteq> []
        \<and> map (ParseMetricSelector ext) ms = map Inr sels \<longrightarrow>
      injectMatcher ext q mt =
        (None, q(matchersParam \<mapsto> map (\<lambda>sel. matchersToString (sel @ [mt])) sels))
      \<and> length sels = length ms
      \<and> ((\<forall>sel \<in> set sels.
             ParseMetricSelector ext (matchersToString (sel @ [mt])) = Inr (sel @ [mt])) \<longrightarrow>
           map (ParseMetricSelector ext) (map (\<lambda>sel. matchersToString (sel @ [mt])) sels)
             = map (\<lambda>sel. Inr (sel @ [mt])) sels))
   \<and> (q matchersParam = Some (pre @ rest) \<and> pre \<noteq> []
        \<and> map (ParseMetricSelector ext) pre = map Inr sels \<longrightarrow>
      (\<exists>tail. length tail = length rest
         \<and> snd (injectMatcher ext q mt) =
             q(matchersParam \<mapsto> map (\<lambda>sel. matchersToString (sel @ [mt])) sels @ tail)))
   \<and> matchersToString (sel @ [mt])
       = ''{'' @ Join (map Matcher_String sel @ [Matcher_String mt]) '','' @ ''}''"
proof -
  have absent: "q matchersParam = None \<or> q matchersParam = Some [] \<longrightarrow>
      injectMatcher ext q mt = (None, q(matchersParam \<mapsto> [''{'' @ Matcher_String mt @ ''}'']))"
    by (auto simp: injectMatcher_def Values_Set_def matchersToString_single)
  have present: "injectMatcher ext q mt =
        (None, q(matchersParam \<mapsto> map (\<lambda>sel. matchersToString (sel @ [mt])) sels))
      \<and> length sels = length ms
      \<and> ((\<forall>sel \<in> set sels.
             ParseMetricSelector ext (matchersToString (sel @ [mt])) = Inr (sel @ [mt])) \<longrightarrow>
           map (ParseMetricSelector ext) (map (\<lambda>sel. matchersToString (sel @ [mt])) sels)
             = map (\<lambda>sel. Inr (sel @ [mt])) sels)"
    if h: "q matchersParam = Some ms" "ms \<noteq> []"
          "map (ParseMetricSelector ext) ms = map Inr sels"
  proof -
    from h(1,2) injectMatcher_loop_parsed [OF h(3), of mt]
    have "injectMatcher ext q mt =
        (None, q(matchersParam \<mapsto> map (\<lambda>sel. matchersToString (sel @ [mt])) sels))"
      by (cases ms) (simp_all add: injectMatcher_def)
    moreover from h(3) have "length sels = length ms"
      using length_map [of "ParseMetricSelector ext" ms] length_map [of Inr sels] by simp
    ultimately show ?thesis by simp
  qed
  have prefix: "\<exists>tail. length tail = length rest
         \<and> snd (injectMatcher ext q mt) =
             q(matchersParam \<mapsto> map (\<lambda>sel. matchersToString (sel @ [mt])) sels @ tail)"
    if h: "q matchersParam = Some (pre @ rest)" "pre \<noteq> []"
          "map (ParseMetricSelector ext) pre = map Inr sels"
    using injectMatcher_prefix [of q pre rest ext sels mt] h
          injectMatcher_loop_length [of ext mt rest]
    by blast
  have "matchersToString (sel @ [mt])
       = ''{'' @ Join (map Matcher_String sel @ [Matcher_String mt]) '','' @ ''}''"
    by (simp add: matchersToString_def)
  with absent present prefix show ?thesis by blast
qed

text \<open>The theorem at the selector \<^verbatim>\<open>{job="api"}\<close> and at a request without selectors.\<close>

theorem injectMatcher_appends_tenant_matcher_witness:
  \<open>injectMatcher example_ext [''match[]'' \<mapsto> [''{job="api"}'']] tenant_team_a
     = (None, [''match[]'' \<mapsto> [''{job="api",tenant="team-a"}'']])
   \<and> ParseMetricSelector example_ext ''{job="api",tenant="team-a"}''
     = Inr [job_api, tenant_team_a]
   \<and> injectMatcher example_ext Map.empty tenant_team_a
     = (None, [''match[]'' \<mapsto> [''{tenant="team-a"}'']])\<close>
proof -
  let ?q = \<open>[''match[]'' \<mapsto> [''{job="api"}'']]\<close>
  have str: \<open>matchersToString [job_api] = ''{job="api"}''\<close>
      \<open>matchersToString ([job_api] @ [tenant_team_a]) = ''{job="api",tenant="team-a"}''\<close>
      \<open>''{'' @ Matcher_String tenant_team_a @ ''}'' = ''{tenant="team-a"}''\<close>
    by (simp_all add: matchersToString_def Matcher_String_def strconv_Quote_def quote_byte_def
          job_api_def tenant_team_a_def)
  have parse: \<open>ParseMetricSelector example_ext ''{job="api"}'' = Inr [job_api]\<close>
      \<open>ParseMetricSelector example_ext ''{job="api",tenant="team-a"}''
         = Inr [job_api, tenant_team_a]\<close>
    by (simp_all add: example_ext_def example_ParseMetricSelector_def matchersToString_def
          Matcher_String_def strconv_Quote_def quote_byte_def job_api_def tenant_team_a_def)
  have present: \<open>?q matchersParam = Some [''{job="api"}''] \<and> [''{job="api"}''] \<noteq> []
      \<and> map (ParseMetricSelector example_ext) [''{job="api"}''] = map Inr [[job_api]]\<close>
    using parse(1) by (simp add: matchersParam_def)
  have absent: "Map.empty matchersParam = None \<or> Map.empty matchersParam = Some []"
    by simp
  note th = injectMatcher_appends_tenant_matcher
  have a: \<open>injectMatcher example_ext ?q tenant_team_a
      = (None, ?q(matchersParam \<mapsto>
           map (\<lambda>sel. matchersToString (sel @ [tenant_team_a])) [[job_api]]))\<close>
    using th [of ?q example_ext tenant_team_a "[''{job=\"api\"}'']" "[[job_api]]"] present
    by blast
  have b: "injectMatcher example_ext Map.empty tenant_team_a
      = (None, Map.empty(matchersParam \<mapsto> [''{'' @ Matcher_String tenant_team_a @ ''}'']))"
    using th [of Map.empty example_ext tenant_team_a] absent by blast
  from a b str parse(2) show ?thesis
    by (simp add: matchersParam_def)
qed

end
